theory Spec2Isabelle
  imports Complex_Main
begin

section \<open>JavaScript values used by the filter engine\<close>

text \<open>
  The exceptions of the modelled code: a \<open>TypeError\<close> (a method call on a value that has
  no such method), a rejected database query, and a failed delivery of a notification.
\<close>

datatype js_error = TypeError | QueryError | SendError

text \<open>
  A number as \<open>parseFloat\<close> returns it for a stored threshold: a finite number or \<open>NaN\<close>
  (the bot stores thresholds it has parsed as positive integers, so the infinities do not
  occur).  Amounts, prices and market caps of swaps and of resolved token data are finite
  numbers; \<open>*\<close>, \<open>\<le>\<close> on \<open>real\<close> stand for the operations of the source on them.
\<close>

datatype jsnum = Num real | NaN

text \<open>
  What a variable holding a "symbol" can be at run time: a string, or the \<open>Promise\<close> that a
  call of an \<open>async\<close> function returns when it is not awaited.  \<open>JPromise s\<close> is a promise
  that would resolve to \<open>s\<close>.
\<close>

datatype jsval = JString string | JPromise string

text \<open>Truthiness of an optional string: \<open>undefined\<close> and \<open>""\<close> are falsy.\<close>

definition truthy :: "string option \<Rightarrow> bool" where
  "truthy v = (case v of None \<Rightarrow> False | Some s \<Rightarrow> s \<noteq> [])"

text \<open>\<open>String.prototype.toLowerCase\<close> on the ASCII letters.\<close>

definition toLowerChar :: "char \<Rightarrow> char" where
  "toLowerChar c =
     (case map_of (zip ''ABCDEFGHIJKLMNOPQRSTUVWXYZ'' ''abcdefghijklmnopqrstuvwxyz'') c of
        Some l \<Rightarrow> l
      | None \<Rightarrow> c)"

definition toLowerCase :: "string \<Rightarrow> string" where
  "toLowerCase s = map toLowerChar s"

text \<open>\<open>v.toLowerCase()\<close>: a promise has no such method.\<close>

fun js_toLowerCase :: "jsval \<Rightarrow> js_error + string" where
  "js_toLowerCase (JString s) = Inr (toLowerCase s)"
| "js_toLowerCase (JPromise s) = Inl TypeError"

text \<open>\<open>v === 'lit'\<close> and \<open>list.includes(v)\<close>: an object is never equal to a string.\<close>

fun strict_equals :: "jsval \<Rightarrow> string \<Rightarrow> bool" where
  "strict_equals (JString s) lit = (s = lit)"
| "strict_equals (JPromise s) lit = False"

fun js_includes :: "string list \<Rightarrow> jsval \<Rightarrow> bool" where
  "js_includes xs (JString s) = (s \<in> set xs)"
| "js_includes xs (JPromise s) = False"

text \<open>\<open>str.startsWith(prefix)\<close>.\<close>

definition startsWith :: "string \<Rightarrow> string \<Rightarrow> bool" where
  "startsWith s p = (take (length p) s = p)"

text \<open>
  A JavaScript \<open>Set\<close> of strings keeps insertion order: a list without repetition.
\<close>

definition set_add :: "string \<Rightarrow> string list \<Rightarrow> string list" where
  "set_add x xs = (if x \<in> set xs then xs else xs @ [x])"

definition set_delete :: "string \<Rightarrow> string list \<Rightarrow> string list" where
  "set_delete x xs = filter (\<lambda>y. y \<noteq> x) xs"

section \<open>Data model\<close>

record metadata =
  symbol :: "string option"
  name :: "string option"

record token =
  mint :: "string option"
  metadata :: "metadata option"
  amount :: real

record swap =
  signature :: "string option"
  timestamp :: string
  feePayer :: "string option"
  inputToken :: "token option"
  outputToken :: "token option"

text \<open>An entry of the per-cycle token data cache, as \<open>getTokenData\<close> builds it.\<close>

record token_data =
  price :: real
  marketCap :: real
  isHardcodedSupply :: bool
  cached_symbol :: "string option"

text \<open>The answer of \<open>getDexScreenerData\<close>.\<close>

record dex_data =
  dex_price :: real
  dex_marketCap :: real
  dex_symbol :: "string option"

type_synonym token_cache = "string \<Rightarrow> token_data option"

text \<open>
  What the code reads from outside the process: \<open>parseFloat\<close> of the runtime, the
  answers of the two network lookups (\<open>getTokenData(mint, symbol)\<close> and
  \<open>getDexScreenerData(mint)\<close>), which catch their own failures and always return a
  record, and whether formatting and sending a notification to a user throws.
\<close>

record env =
  parseFloat :: "string \<Rightarrow> jsnum"
  getTokenData :: "string option \<Rightarrow> jsval \<Rightarrow> token_data"
  getDexScreenerData :: "string \<Rightarrow> dex_data"
  deliveryFails :: "int \<Rightarrow> swap \<Rightarrow> bool"

text \<open>A row of the \<open>user_filters\<close> table.\<close>

record filter_row =
  filter_type :: string
  filter_value :: string

text \<open>
  The argument of \<open>processFilters\<close>: \<open>null\<close>, \<open>undefined\<close>, some value that is not an
  array, or an array of rows.
\<close>

datatype db_filters = Null | Undefined | NotArray | Rows "filter_row list"

record user_filters =
  tokens :: "string list"
  blacklist :: "string list"
  whale_blacklist :: "string list"
  min_purchase :: "jsnum option"
  max_market_cap :: "jsnum option"
  monitor_all :: bool
  notifications_enabled :: bool
  first_mention_only :: bool

record match_result =
  matches :: bool
  isFirstMention :: bool

text \<open>
  \<open>userProcessedSwaps\<close>: a \<open>Map\<close> from user id to the \<open>Set\<close> of swap ids already
  delivered to that user.
\<close>

type_synonym user_id = int

type_synonym engine_state = "user_id \<Rightarrow> string list option"

section \<open>processFilters\<close>

definition default_filters :: user_filters where
  "default_filters =
     \<lparr>tokens = [], blacklist = [], whale_blacklist = [], min_purchase = None,
      max_market_cap = None, monitor_all = True, notifications_enabled = False,
      first_mention_only = False\<rparr>"

text \<open>The body of the \<open>forEach\<close>: one \<open>switch\<close> on \<open>filter.filter_type\<close>.\<close>

definition processFilterRow :: "env \<Rightarrow> user_filters \<Rightarrow> filter_row \<Rightarrow> user_filters" where
  "processFilterRow e filters r =
     (if filter_type r = ''token_whitelist''
        then filters\<lparr>tokens := tokens filters @ [filter_value r]\<rparr>
      else if filter_type r = ''token_blacklist''
        then filters\<lparr>blacklist := blacklist filters @ [filter_value r]\<rparr>
      else if filter_type r = ''whale_blacklist''
        then filters\<lparr>whale_blacklist := whale_blacklist filters @ [filter_value r]\<rparr>
      else if filter_type r = ''min_purchase''
        then filters\<lparr>min_purchase := Some (parseFloat e (filter_value r))\<rparr>
      else if filter_type r = ''max_market_cap''
        then filters\<lparr>max_market_cap := Some (parseFloat e (filter_value r))\<rparr>
      else if filter_type r = ''monitor_all''
        then filters\<lparr>monitor_all := (filter_value r = ''true'')\<rparr>
      else if filter_type r = ''notifications_enabled''
        then filters\<lparr>notifications_enabled := (filter_value r = ''true'')\<rparr>
      else if filter_type r = ''first_mention_only''
        then filters\<lparr>first_mention_only := (filter_value r = ''true'')\<rparr>
      else filters)"

definition processFilters :: "env \<Rightarrow> db_filters \<Rightarrow> user_filters" where
  "processFilters e dbFilters =
     (case dbFilters of
        Rows rows \<Rightarrow> foldl (processFilterRow e) default_filters rows
      | _ \<Rightarrow> default_filters)"

section \<open>Token symbols\<close>

text \<open>\<open>token?.metadata?.symbol\<close>, \<open>token?.metadata?.name\<close> and \<open>token?.mint\<close>.\<close>

definition meta_symbol :: "token option \<Rightarrow> string option" where
  "meta_symbol t =
     (case t of None \<Rightarrow> None
      | Some tk \<Rightarrow> (case metadata tk of None \<Rightarrow> None | Some m \<Rightarrow> symbol m))"

definition meta_name :: "token option \<Rightarrow> string option" where
  "meta_name t =
     (case t of None \<Rightarrow> None
      | Some tk \<Rightarrow> (case metadata tk of None \<Rightarrow> None | Some m \<Rightarrow> name m))"

definition opt_mint :: "token option \<Rightarrow> string option" where
  "opt_mint t = (case t of None \<Rightarrow> None | Some tk \<Rightarrow> mint tk)"

definition knownTokens :: "(string \<times> string) list" where
  "knownTokens =
     [(''Ey59PH7Z4BFU4HjyKnyMdWt5GGN76KazTAwQihoUXRnk'', ''LAUNCHCOIN''),
      (''pumpCmXqMfrsAkQ5r49WcJnRayYRqmXz6ae8H7H9Dfn'', ''PUMP''),
      (''HeLp6NuQkmYB4pYWo2zYs22mESHXPQYzXbB8n4V98jwC'', ''ai16z''),
      (''HUMA1821qVDKta3u2ovmfDQeW2fSQouSKE8fkF44wvGw'', ''HUMA''),
      (''bioJ9JTqW62MLz7UKHU69gtKhPpGi1BQhccj2kmSvUJ'', ''BIO''),
      (''So11111111111111111111111111111111111111112'', ''SOL''),
      (''EPjFWdd5AufqSSqeM2qN1xzybapC8G4wEGGkZwyTDt1v'', ''USDC''),
      (''Es9vMFrzaCERmJfrF4H2FYD4KCoNkY11McCe8BenwNYB'', ''USDT''),
      (''USD1ttGY1N17NEEHLmELoaybftRBUSErhqYiQzvEmuB'', ''USD1''),
      (''mSoLzYCxHdYgdzU16g5QSh3i5K3z3KZK7ytfqcJm7So'', ''mSOL''),
      (''bSo13r4TkiE4KumL71LsHTPpL2euBYLFx6h9HP3piy1'', ''bSOL''),
      (''DezXAZ8z7PnrnRJjz3wXBoRgixCa6xjnB7YaB1pPB263'', ''BONK''),
      (''2FPyTwcZLUg1MDrwsyoP4D6s1tM7hAkHYRjkNb5w6Pxk'', ''ETH''),
      (''9n4nbM75f5Ui33ZbPYXn59EwSgE8CGsHtAeTH5YFeJ9E'', ''BTC''),
      (''5oVNBeEEQvYi1cX3ir8Dx5n1P7pdxydbGF2X4TxVusJm'', ''INF''),
      (''A9mUU4qviSctJVPJdBJWkb28deg915LYJKrzQ19ji3FM'', ''USDCet''),
      (''3NZ9JMVBmGAqocybic2c7LQCJScmgsAZ6vQqTDzcqmJh'', ''WBTC'')]"

text \<open>
  The chain of \<open>if (x) return x\<close> of \<open>getTokenSymbol\<close>: the first truthy candidate, or
  the default.
\<close>

fun first_truthy :: "string option list \<Rightarrow> string \<Rightarrow> string" where
  "first_truthy [] d = d"
| "first_truthy (None # cs) d = first_truthy cs d"
| "first_truthy (Some s # cs) d = (if s = [] then first_truthy cs d else s)"

text \<open>
  The value the promise of \<open>getTokenSymbol(token, tokenDataCache)\<close> resolves to: the
  metadata symbol, the table of known mints, the metadata name, the cache, DexScreener,
  and at last \<open>'Unknown'\<close>.
\<close>

definition getTokenSymbol :: "env \<Rightarrow> token option \<Rightarrow> token_cache option \<Rightarrow> string" where
  "getTokenSymbol e tok tokenDataCache =
     (let m = opt_mint tok in
      first_truthy
        [meta_symbol tok,
         (if truthy m then (case m of None \<Rightarrow> None | Some k \<Rightarrow> map_of knownTokens k) else None),
         meta_name tok,
         (if truthy m
          then (case (m, tokenDataCache) of
                  (Some k, Some c) \<Rightarrow> (case c k of None \<Rightarrow> None | Some d \<Rightarrow> cached_symbol d)
                | _ \<Rightarrow> None)
          else None),
         (if truthy m
          then (case m of None \<Rightarrow> None | Some k \<Rightarrow> dex_symbol (getDexScreenerData e k))
          else None)]
        ''Unknown'')"

section \<open>Swap classification and valuation\<close>

text \<open>The three local \<open>stablecoins\<close> arrays of the source.\<close>

definition stablecoins_matchesFilters :: "string list" where
  "stablecoins_matchesFilters = [''USDC'', ''USDT'', ''BUSD'', ''USD1'', ''DAI'', ''FRAX'']"

definition stablecoins_isBuyTransaction :: "string list" where
  "stablecoins_isBuyTransaction = [''USDC'', ''USDT'', ''BUSD'', ''USD1'']"

definition stablecoins_calculateSwapValueUSD :: "string list" where
  "stablecoins_calculateSwapValueUSD = [''USDC'', ''USDT'', ''BUSD'', ''DAI'', ''FRAX'', ''USD1'']"

definition isBuyTransaction :: "swap \<Rightarrow> bool" where
  "isBuyTransaction swap =
     (case outputToken swap of
        None \<Rightarrow> False
      | Some out \<Rightarrow>
          if (case meta_symbol (Some out) of
                None \<Rightarrow> False
              | Some s \<Rightarrow> s \<in> set stablecoins_isBuyTransaction)
          then False
          else meta_symbol (Some out) \<noteq> Some ''SOL'')"

text \<open>\<open>isBuy ? swap.outputToken : swap.inputToken\<close>.\<close>

definition relevantToken :: "swap \<Rightarrow> token option" where
  "relevantToken swap = (if isBuyTransaction swap then outputToken swap else inputToken swap)"

definition SOL_MINT :: string where
  "SOL_MINT = ''So11111111111111111111111111111111111111112''"

text \<open>\<open>tokenDataCache?.get(mint) || await this.getTokenData(mint, symbol)\<close>.\<close>

definition lookupTokenData ::
  "env \<Rightarrow> token_cache option \<Rightarrow> string option \<Rightarrow> jsval \<Rightarrow> token_data" where
  "lookupTokenData e tokenDataCache m symb =
     (case (tokenDataCache, m) of
        (Some c, Some k) \<Rightarrow> (case c k of Some d \<Rightarrow> d | None \<Rightarrow> getTokenData e m symb)
      | _ \<Rightarrow> getTokenData e m symb)"

text \<open>\<open>solData.price || 220\<close>.\<close>

definition price_or_220 :: "token_data \<Rightarrow> real" where
  "price_or_220 d = (if price d = 0 then 220 else price d)"

definition calculateSwapValueUSD :: "env \<Rightarrow> swap \<Rightarrow> token_cache option \<Rightarrow> real" where
  "calculateSwapValueUSD e swap tokenDataCache =
     (let tryOutput =
        (case outputToken swap of
           None \<Rightarrow> 0
         | Some out \<Rightarrow>
            (case meta_symbol (Some out) of
               None \<Rightarrow> 0
             | Some symb \<Rightarrow>
                if symb = [] then 0
                else if symb \<in> set stablecoins_calculateSwapValueUSD then amount out
                else if symb = ''SOL''
                  then amount out *
                       price_or_220 (lookupTokenData e tokenDataCache (Some SOL_MINT) (JString ''SOL''))
                else if truthy (mint out)
                  then (let tokenData = lookupTokenData e tokenDataCache (mint out) (JString symb)
                        in if price tokenData > 0 then amount out * price tokenData else 0)
                else 0))
      in case inputToken swap of
           None \<Rightarrow> tryOutput
         | Some inp \<Rightarrow>
            (case meta_symbol (Some inp) of
               None \<Rightarrow> tryOutput
             | Some symb \<Rightarrow>
                if symb = [] then tryOutput
                else if symb \<in> set stablecoins_calculateSwapValueUSD then amount inp
                else if symb = ''SOL''
                  then amount inp *
                       price_or_220 (lookupTokenData e tokenDataCache (Some SOL_MINT) (JString ''SOL''))
                else if truthy (mint inp)
                  then (let tokenData = lookupTokenData e tokenDataCache (mint inp) (JString symb)
                        in if price tokenData > 0 then amount inp * price tokenData
                           else tryOutput)
                else tryOutput))"

section \<open>The individual checks\<close>

text \<open>
  \<open>checkTokenWhitelist\<close> and \<open>checkBlacklist\<close> call \<open>this.getTokenSymbol(token)\<close> without
  \<open>await\<close> and then \<open>.toLowerCase()\<close> on what it returned.
\<close>

definition checkTokenWhitelist :: "env \<Rightarrow> token \<Rightarrow> string list \<Rightarrow> js_error + bool" where
  "checkTokenWhitelist e tok allowedTokens =
     (if allowedTokens = [] then Inr False
      else
        (case js_toLowerCase (JPromise (getTokenSymbol e (Some tok) None)) of
           Inl err \<Rightarrow> Inl err
         | Inr tokenSymbol \<Rightarrow>
             (let tokenMint = map_option toLowerCase (mint tok)
              in Inr (\<exists>allowed \<in> set allowedTokens.
                        toLowerCase allowed = tokenSymbol \<or>
                        Some (toLowerCase allowed) = tokenMint))))"

definition checkBlacklist :: "env \<Rightarrow> token \<Rightarrow> string list \<Rightarrow> js_error + bool" where
  "checkBlacklist e tok blacklistedTokens =
     (if blacklistedTokens = [] then Inr True
      else
        (case js_toLowerCase (JPromise (getTokenSymbol e (Some tok) None)) of
           Inl err \<Rightarrow> Inl err
         | Inr tokenSymbol \<Rightarrow>
             (let tokenMint = map_option toLowerCase (mint tok)
              in Inr (\<not> (\<exists>blocked \<in> set blacklistedTokens.
                           toLowerCase blocked = tokenSymbol \<or>
                           Some (toLowerCase blocked) = tokenMint)))))"

definition checkWhaleBlacklist :: "string option \<Rightarrow> string list \<Rightarrow> bool" where
  "checkWhaleBlacklist whaleAddress blacklistedWhales =
     (if blacklistedWhales = [] then True
      else \<not> (\<exists>blocked \<in> set blacklistedWhales.
                 Some (toLowerCase blocked) = map_option toLowerCase whaleAddress))"

text \<open>\<open>!minPurchase || minPurchase <= 0\<close>: \<open>null\<close>, \<open>NaN\<close> and \<open>0\<close> are falsy.\<close>

definition checkMinimumPurchase :: "real \<Rightarrow> jsnum option \<Rightarrow> bool" where
  "checkMinimumPurchase swapValueUSD minPurchase =
     (case minPurchase of
        None \<Rightarrow> True
      | Some NaN \<Rightarrow> True
      | Some (Num m) \<Rightarrow> if m = 0 \<or> m \<le> 0 then True else swapValueUSD \<ge> m)"

definition checkMarketCap :: "env \<Rightarrow> token \<Rightarrow> jsnum option \<Rightarrow> token_cache option \<Rightarrow> bool" where
  "checkMarketCap e tok maxMarketCap tokenDataCache =
     (case maxMarketCap of
        None \<Rightarrow> True
      | Some NaN \<Rightarrow> True
      | Some (Num mx) \<Rightarrow>
          if mx = 0 \<or> mx \<le> 0 then True
          else
            (let tokenSymbol = JPromise (getTokenSymbol e (Some tok) None);
                 tokenData = lookupTokenData e tokenDataCache (mint tok) tokenSymbol
             in if isHardcodedSupply tokenData
                then (if marketCap tokenData = 0 then False else marketCap tokenData \<le> mx)
                else (if marketCap tokenData = 0 then False else marketCap tokenData \<le> mx)))"

section \<open>matchesFilters and shouldNotify\<close>

definition hardcodedBlacklist :: "string list" where
  "hardcodedBlacklist = [''EJhqXKJEncSx1HJjS5ZpKdiKGGgLiRgNPvo8JZvw5Guj'']"

definition hardcodedWhaleBlacklist :: "string list" where
  "hardcodedWhaleBlacklist = [''MfDuWeqSHEqTFVYZ7LoexgAK9dxk7cy4DFJWjWMGVWa'']"

text \<open>\<open>swap.signature || `${swap.timestamp}-${swap.feePayer}`\<close>.\<close>

definition swapId :: "swap \<Rightarrow> string" where
  "swapId swap =
     (if truthy (signature swap)
      then (case signature swap of Some sg \<Rightarrow> sg | None \<Rightarrow> [])
      else timestamp swap @ ''-'' @
           (case feePayer swap of None \<Rightarrow> ''undefined'' | Some f \<Rightarrow> f))"

text \<open>\<open>this.userProcessedSwaps.get(userId)\<close>, read as a list in insertion order.\<close>

definition processedSwaps :: "engine_state \<Rightarrow> user_id \<Rightarrow> string list" where
  "processedSwaps st u = (case st u of None \<Rightarrow> [] | Some xs \<Rightarrow> xs)"

text \<open>
  The update on a match: add the swap id, and when the set has grown beyond 100 delete
  \<open>Array.from(set).slice(0, 50)\<close> from it.
\<close>

definition recordSwap :: "string \<Rightarrow> string list \<Rightarrow> string list" where
  "recordSwap sid xs =
     (let ys = set_add sid xs
      in if length ys > 100
         then foldl (\<lambda>zs old. set_delete old zs) ys (take 50 ys)
         else ys)"

text \<open>\<open>mint && mint.startsWith('Xs')\<close>, \<open>list.includes(mint)\<close>, \<open>mint && set.has(mint)\<close>.\<close>

definition isSpamMint :: "string option \<Rightarrow> bool" where
  "isSpamMint m = (case m of None \<Rightarrow> False | Some k \<Rightarrow> k \<noteq> [] \<and> startsWith k ''Xs'')"

definition includesOpt :: "string list \<Rightarrow> string option \<Rightarrow> bool" where
  "includesOpt xs m = (case m of None \<Rightarrow> False | Some k \<Rightarrow> k \<in> set xs)"

definition isFirst :: "string list \<Rightarrow> string option \<Rightarrow> bool" where
  "isFirst firstMentionTokens m =
     (case m of None \<Rightarrow> False | Some k \<Rightarrow> k \<noteq> [] \<and> k \<in> set firstMentionTokens)"

definition no_match :: match_result where
  "no_match = \<lparr>matches = False, isFirstMention = False\<rparr>"

text \<open>\<open>max_market_cap && max_market_cap > 0\<close>.\<close>

definition marketCapFilterActive :: "jsnum option \<Rightarrow> bool" where
  "marketCapFilterActive mc =
     (case mc of None \<Rightarrow> False | Some NaN \<Rightarrow> False | Some (Num mx) \<Rightarrow> mx \<noteq> 0 \<and> mx > 0)"

text \<open>
  The guard "filter out SOL<->stablecoin swaps" of \<open>matchesFilters\<close>.  \<open>inputSymbol\<close> and
  \<open>outputSymbol\<close> are what \<open>this.getTokenSymbol(...)\<close> returns there, called without
  \<open>await\<close>.
\<close>

definition isConversion :: "env \<Rightarrow> swap \<Rightarrow> bool" where
  "isConversion e swap =
     (let inputSymbol = JPromise (getTokenSymbol e (inputToken swap) None);
          outputSymbol = JPromise (getTokenSymbol e (outputToken swap) None)
      in (strict_equals inputSymbol ''SOL'' \<and>
          js_includes stablecoins_matchesFilters outputSymbol) \<or>
         (strict_equals outputSymbol ''SOL'' \<and>
          js_includes stablecoins_matchesFilters inputSymbol))"

text \<open>
  The result is the value the returned promise settles to (\<open>Inl\<close>: it rejects with the
  error) together with \<open>userProcessedSwaps\<close> afterwards.
\<close>

definition matchesFilters ::
  "env \<Rightarrow> engine_state \<Rightarrow> swap \<Rightarrow> user_filters \<Rightarrow> string list option \<Rightarrow> user_id \<Rightarrow>
   token_cache option \<Rightarrow> (js_error + match_result) \<times> engine_state" where
  "matchesFilters e st swap userFilters firstMentionTokens userId tokenDataCache =
     (if \<not> notifications_enabled userFilters then (Inr no_match, st)
      else
        let sid = swapId swap;
            st1 = (if st userId = None then st(userId \<mapsto> []) else st)
        in
        if sid \<in> set (processedSwaps st1 userId) then (Inr no_match, st1)
        else
        if isConversion e swap then (Inr no_match, st1)
        else
        let inputMint = opt_mint (inputToken swap);
            outputMint = opt_mint (outputToken swap)
        in
        if isSpamMint inputMint \<or> isSpamMint outputMint then (Inr no_match, st1)
        else if includesOpt hardcodedBlacklist inputMint \<or> includesOpt hardcodedBlacklist outputMint
        then (Inr no_match, st1)
        else
        let swapAmountUSD = calculateSwapValueUSD e swap tokenDataCache
        in
        (case relevantToken swap of
           None \<Rightarrow> (Inr no_match, st1)
         | Some rt \<Rightarrow>
            let firstMention =
                  (case firstMentionTokens of
                     None \<Rightarrow> False
                   | Some fm \<Rightarrow> isFirst fm inputMint \<or> isFirst fm outputMint)
            in
            if first_mention_only userFilters \<and> \<not> firstMention then (Inr no_match, st1)
            else
            (case (if monitor_all userFilters
                   then checkBlacklist e rt (blacklist userFilters)
                   else checkTokenWhitelist e rt (tokens userFilters)) of
               Inl err \<Rightarrow> (Inl err, st1)
             | Inr tokenCheck \<Rightarrow>
                if includesOpt hardcodedWhaleBlacklist (feePayer swap) then (Inr no_match, st1)
                else
                let whaleCheck = checkWhaleBlacklist (feePayer swap) (whale_blacklist userFilters);
                    marketCapCheck =
                      (if marketCapFilterActive (max_market_cap userFilters)
                       then checkMarketCap e rt (max_market_cap userFilters) tokenDataCache
                       else True);
                    m = (tokenCheck \<and> whaleCheck \<and>
                         checkMinimumPurchase swapAmountUSD (min_purchase userFilters) \<and>
                         marketCapCheck);
                    st2 = (if m then st1(userId \<mapsto> recordSwap sid (processedSwaps st1 userId))
                           else st1)
                in (Inr \<lparr>matches = m, isFirstMention = firstMention\<rparr>, st2))))"

definition shouldNotify ::
  "env \<Rightarrow> engine_state \<Rightarrow> user_id \<Rightarrow> swap \<Rightarrow> db_filters \<Rightarrow> string list option \<Rightarrow>
   token_cache option \<Rightarrow> (js_error + match_result) \<times> engine_state" where
  "shouldNotify e st userId swap userFilters firstMentionTokens tokenDataCache =
     matchesFilters e st swap (processFilters e userFilters) firstMentionTokens userId
       tokenDataCache"

section \<open>The durable store\<close>

text \<open>
  The tables the cycle reads and writes, and for each coming query whether \<open>pool.query\<close>
  rejects it (an empty schedule: no query fails).
\<close>

record database =
  unique_tokens :: "(string \<times> string option) list"
  users :: "user_id list"
  user_filter_rows :: "user_id \<Rightarrow> filter_row list"
  outages :: "bool list"

definition pool_query :: "database \<Rightarrow> bool \<times> database" where
  "pool_query d = (case outages d of [] \<Rightarrow> (False, d) | x # xs \<Rightarrow> (x, d\<lparr>outages := xs\<rparr>))"

definition getUserFilters :: "database \<Rightarrow> user_id \<Rightarrow> (js_error + filter_row list) \<times> database" where
  "getUserFilters d telegramId =
     (let (rejected, d') = pool_query d
      in if rejected then (Inl QueryError, d') else (Inr (user_filter_rows d' telegramId), d'))"

definition getAllUsers :: "database \<Rightarrow> (js_error + user_id list) \<times> database" where
  "getAllUsers d =
     (let (rejected, d') = pool_query d
      in if rejected then (Inl QueryError, d') else (Inr (users d'), d'))"

definition isTokenKnown :: "database \<Rightarrow> string \<Rightarrow> bool \<times> database" where
  "isTokenKnown d tokenMint =
     (let (rejected, d') = pool_query d
      in if rejected then (True, d') else (tokenMint \<in> fst ` set (unique_tokens d'), d'))"

text \<open>
  Modelled from the spec: the unique constraint on \<open>token_mint\<close> that
  \<open>ON CONFLICT (token_mint) DO NOTHING\<close> refers to (the declaration of the table
  \<open>unique_tokens\<close> is not among the sources): the insert adds the row when no row has the
  mint and does nothing, without an error, when one has.
\<close>

definition markTokenAsFirstMentioned ::
  "database \<Rightarrow> string \<Rightarrow> string option \<Rightarrow> bool \<times> database" where
  "markTokenAsFirstMentioned d tokenMint tokenSymbol =
     (let (rejected, d') = pool_query d
      in if rejected then (False, d')
         else (True,
               if tokenMint \<in> fst ` set (unique_tokens d') then d'
               else d'\<lparr>unique_tokens := unique_tokens d' @ [(tokenMint, tokenSymbol)]\<rparr>))"

section \<open>The poll cycle\<close>

text \<open>The calls of a cycle that the statements are about, in the order they are made.\<close>

datatype event =
    IsTokenKnown string
  | GetUserFilters user_id
  | ShouldNotify user_id string
  | Notify user_id string
  | MarkTokenAsFirstMentioned string "string option"

record bot =
  db :: database
  userProcessedSwaps :: engine_state
  calls :: "event list"

text \<open>
  One \<open>if (mint) { isKnown = await isTokenKnown(mint); if (!isKnown) set.add(mint) }\<close>.
\<close>

definition noteIfUnknown :: "string option \<Rightarrow> string list \<times> bot \<Rightarrow> string list \<times> bot" where
  "noteIfUnknown m acc =
     (case m of
        None \<Rightarrow> acc
      | Some k \<Rightarrow>
          if k = [] then acc
          else
            (let (firstMentionTokens, b) = acc;
                 (isKnown, d') = isTokenKnown (db b) k;
                 b' = b\<lparr>db := d', calls := calls b @ [IsTokenKnown k]\<rparr>
             in (if \<not> isKnown then set_add k firstMentionTokens else firstMentionTokens, b')))"

fun detectFirstMentions :: "swap list \<Rightarrow> string list \<times> bot \<Rightarrow> string list \<times> bot" where
  "detectFirstMentions [] acc = acc"
| "detectFirstMentions (swap # swaps) acc =
     detectFirstMentions swaps
       (noteIfUnknown (opt_mint (outputToken swap))
          (noteIfUnknown (opt_mint (inputToken swap)) acc))"

text \<open>
  The loop over the swaps for one user.  An exception of \<open>shouldNotify\<close> leaves the loop.
  An exception while the notification is formatted and sent is caught inside the loop in
  the branch for users with notifications on, and leaves the loop in the other branch.
  \<open>Notify\<close> records the attempt.
\<close>

fun notifySwaps ::
  "env \<Rightarrow> bool \<Rightarrow> user_id \<Rightarrow> filter_row list \<Rightarrow> string list \<Rightarrow> token_cache \<Rightarrow> swap list \<Rightarrow>
   bot \<Rightarrow> js_error option \<times> bot" where
  "notifySwaps e enabled uid rows fm cache [] b = (None, b)"
| "notifySwaps e enabled uid rows fm cache (swap # swaps) b =
     (case shouldNotify e (userProcessedSwaps b) uid swap (Rows rows) (Some fm) (Some cache) of
        (Inl err, st') \<Rightarrow>
          (Some err,
           b\<lparr>userProcessedSwaps := st', calls := calls b @ [ShouldNotify uid (swapId swap)]\<rparr>)
      | (Inr result, st') \<Rightarrow>
          (let b1 = b\<lparr>userProcessedSwaps := st',
                      calls := calls b @ [ShouldNotify uid (swapId swap)]\<rparr>
           in if matches result
              then (let b2 = b1\<lparr>calls := calls b1 @ [Notify uid (swapId swap)]\<rparr>
                    in if deliveryFails e uid swap \<and> \<not> enabled then (Some SendError, b2)
                       else notifySwaps e enabled uid rows fm cache swaps b2)
              else notifySwaps e enabled uid rows fm cache swaps b1))"

text \<open>The body of the loop over the users, with its \<open>try\<close> and empty \<open>catch\<close>.\<close>

definition processUser ::
  "env \<Rightarrow> string list \<Rightarrow> token_cache \<Rightarrow> swap list \<Rightarrow> bot \<Rightarrow> user_id \<Rightarrow> bot" where
  "processUser e fm cache swaps b uid =
     (let (res, d') = getUserFilters (db b) uid;
          b0 = b\<lparr>db := d', calls := calls b @ [GetUserFilters uid]\<rparr>
      in case res of
           Inl err \<Rightarrow> b0
         | Inr rows \<Rightarrow>
             snd (notifySwaps e (notifications_enabled (processFilters e (Rows rows)))
                    uid rows fm cache swaps b0))"

text \<open>\<open>cachedData?.symbol || null\<close>.\<close>

definition cachedSymbol :: "token_cache \<Rightarrow> string \<Rightarrow> string option" where
  "cachedSymbol cache tokenMint =
     (case cache tokenMint of
        None \<Rightarrow> None
      | Some d \<Rightarrow> if truthy (cached_symbol d) then cached_symbol d else None)"

fun commitFirstMentions :: "token_cache \<Rightarrow> string list \<Rightarrow> bot \<Rightarrow> bot" where
  "commitFirstMentions cache [] b = b"
| "commitFirstMentions cache (tokenMint # rest) b =
     (let tokenSymbol = cachedSymbol cache tokenMint;
          (ok, d') = markTokenAsFirstMentioned (db b) tokenMint tokenSymbol
      in commitFirstMentions cache rest
           (b\<lparr>db := d',
              calls := calls b @ [MarkTokenAsFirstMentioned tokenMint tokenSymbol]\<rparr>))"

text \<open>
  \<open>checkForNewSwaps\<close>.  \<open>feed\<close> is the array the swap API answered with, \<open>None\<close> when the
  request failed or the answer was not an array; \<open>tokenDataCache\<close> is what the pre-fetch of
  the token data, which does not touch the store, leaves in the cache.
\<close>

definition checkForNewSwaps :: "env \<Rightarrow> swap list option \<Rightarrow> token_cache \<Rightarrow> bot \<Rightarrow> bot" where
  "checkForNewSwaps e feed tokenDataCache b =
     (case feed of
        None \<Rightarrow> b
      | Some swaps \<Rightarrow>
          if swaps = [] then b
          else
            (let (res, d') = getAllUsers (db b);
                 b0 = b\<lparr>db := d'\<rparr>
             in case res of
                  Inl err \<Rightarrow> b0
                | Inr us \<Rightarrow>
                    (let (firstMentionTokens, b1) = detectFirstMentions swaps ([], b0);
                         b2 = foldl (processUser e firstMentionTokens tokenDataCache swaps) b1 us
                     in commitFirstMentions tokenDataCache firstMentionTokens b2)))"

section \<open>Notions used in the statements\<close>

text \<open>
  The calls of a cycle by phase: detection reads the store of known tokens, evaluation
  runs a user's filters over the swaps, and a commit is a call of
  \<open>markTokenAsFirstMentioned\<close> with the symbol found in the cache.  \<open>swapMints\<close> are the
  mints the swaps of the feed refer to, \<open>known\<close> the mints the store holds.
\<close>

fun isDetection :: "event \<Rightarrow> bool" where
  "isDetection (IsTokenKnown k) = True"
| "isDetection x = False"

fun isEvaluation :: "event \<Rightarrow> bool" where
  "isEvaluation (GetUserFilters u) = True"
| "isEvaluation (ShouldNotify u s) = True"
| "isEvaluation (Notify u s) = True"
| "isEvaluation x = False"

definition swapMints :: "swap list \<Rightarrow> string set" where
  "swapMints swaps =
     {k. k \<noteq> [] \<and> (\<exists>swap \<in> set swaps. opt_mint (inputToken swap) = Some k \<or>
                                        opt_mint (outputToken swap) = Some k)}"

definition known :: "database \<Rightarrow> string set" where
  "known d = fst ` set (unique_tokens d)"

fun isGetUserFilters :: "event \<Rightarrow> bool" where
  "isGetUserFilters (GetUserFilters u) = True"
| "isGetUserFilters x = False"

definition commitCall :: "token_cache \<Rightarrow> string \<Rightarrow> event" where
  "commitCall cache tokenMint = MarkTokenAsFirstMentioned tokenMint (cachedSymbol cache tokenMint)"

text \<open>
  What one commit does to the store, and the row it adds for a mint the store does not
  know.
\<close>

definition applyCommit :: "token_cache \<Rightarrow> database \<Rightarrow> string \<Rightarrow> database" where
  "applyCommit cache d tokenMint =
     snd (markTokenAsFirstMentioned d tokenMint (cachedSymbol cache tokenMint))"

definition commitRow :: "token_cache \<Rightarrow> string \<Rightarrow> string \<times> string option" where
  "commitRow cache tokenMint = (tokenMint, cachedSymbol cache tokenMint)"

definition feedSwaps :: "swap list option \<Rightarrow> swap list" where
  "feedSwaps feed = (case feed of None \<Rightarrow> [] | Some swaps \<Rightarrow> swaps)"

text \<open>The recognised stablecoin symbols.\<close>

definition recognized_stablecoins :: "string list" where
  "recognized_stablecoins = [''USDC'', ''USDT'', ''BUSD'', ''USD1'', ''DAI'', ''FRAX'']"

text \<open>
  The USD valuation as the specification words it.  One side of the swap yields a value
  when its token has a symbol and: the symbol is a recognised stablecoin (the amount
  itself); or it is \<open>SOL\<close> (amount times the resolved SOL price, 220 when that price is
  unresolved); or the token has a mint whose resolved price is positive (amount times that
  price).  The input side is tried first, then the output side, and the value is 0 when
  neither side yields one.
\<close>

definition sideValueUSD :: "env \<Rightarrow> token_cache option \<Rightarrow> token option \<Rightarrow> real option" where
  "sideValueUSD e c t =
     (case t of
        None \<Rightarrow> None
      | Some tk \<Rightarrow>
         (case meta_symbol t of
            None \<Rightarrow> None
          | Some s \<Rightarrow>
             if s = [] then None
             else if s \<in> set recognized_stablecoins then Some (amount tk)
             else if s = ''SOL'' then
               (let p = price (lookupTokenData e c (Some SOL_MINT) (JString ''SOL''))
                in Some (amount tk * (if p = 0 then 220 else p)))
             else
               (let p = price (lookupTokenData e c (mint tk) (JString s))
                in if truthy (mint tk) \<and> 0 < p then Some (amount tk * p) else None)))"

definition valueUSD_spec :: "env \<Rightarrow> swap \<Rightarrow> token_cache option \<Rightarrow> real" where
  "valueUSD_spec e swap c =
     (case sideValueUSD e c (inputToken swap) of
        Some v \<Rightarrow> v
      | None \<Rightarrow> (case sideValueUSD e c (outputToken swap) of Some v \<Rightarrow> v | None \<Rightarrow> 0))"

text \<open>
  A token matches an entry of a list by symbol or by mint, case-insensitively.  The symbol
  is the one \<open>getTokenSymbol(token)\<close> resolves to.
\<close>

definition tokenListed :: "env \<Rightarrow> token \<Rightarrow> string list \<Rightarrow> bool" where
  "tokenListed e tok entries =
     (\<exists>x \<in> set entries.
        toLowerCase x = toLowerCase (getTokenSymbol e (Some tok) None) \<or>
        Some (toLowerCase x) = map_option toLowerCase (mint tok))"

text \<open>One of the swap's mints is in the first-mention set.\<close>

definition firstMentionFlag :: "string list option \<Rightarrow> swap \<Rightarrow> bool" where
  "firstMentionFlag fm swap =
     (case fm of
        None \<Rightarrow> False
      | Some s \<Rightarrow> isFirst s (opt_mint (inputToken swap)) \<or> isFirst s (opt_mint (outputToken swap)))"


text \<open>
  The rejections that return the literal \<open>{matches: false, isFirstMention: false}\<close>:
  notifications off, a swap id already delivered to the user, the conversion guard, a spam
  or blocklisted mint, no relevant token, a blocklisted whale.
\<close>

definition rejectedEarly ::
  "env \<Rightarrow> engine_state \<Rightarrow> swap \<Rightarrow> user_filters \<Rightarrow> user_id \<Rightarrow> bool" where
  "rejectedEarly e st swap f uid =
     (\<not> notifications_enabled f \<or>
      swapId swap \<in> set (processedSwaps st uid) \<or>
      isConversion e swap \<or>
      isSpamMint (opt_mint (inputToken swap)) \<or> isSpamMint (opt_mint (outputToken swap)) \<or>
      includesOpt hardcodedBlacklist (opt_mint (inputToken swap)) \<or>
      includesOpt hardcodedBlacklist (opt_mint (outputToken swap)) \<or>
      relevantToken swap = None \<or>
      includesOpt hardcodedWhaleBlacklist (feePayer swap))"

text \<open>
  One of the four user-level checks fails for the relevant token \<open>rt\<close>: the token list of
  the mode, the whale blacklist, the minimum purchase, the market cap.
\<close>

definition userLevelRejection ::
  "env \<Rightarrow> swap \<Rightarrow> user_filters \<Rightarrow> token_cache option \<Rightarrow> token \<Rightarrow> bool" where
  "userLevelRejection e swap f c rt =
     ((if monitor_all f then checkBlacklist e rt (blacklist f)
       else checkTokenWhitelist e rt (tokens f)) = Inr False \<or>
      \<not> checkWhaleBlacklist (feePayer swap) (whale_blacklist f) \<or>
      \<not> checkMinimumPurchase (calculateSwapValueUSD e swap c) (min_purchase f) \<or>
      (marketCapFilterActive (max_market_cap f) \<and> \<not> checkMarketCap e rt (max_market_cap f) c))"

text \<open>The engine state after one more call of \<open>shouldNotify\<close> for a user.\<close>

definition deliver :: "env \<Rightarrow> user_id \<Rightarrow> db_filters \<Rightarrow> engine_state \<Rightarrow> swap \<Rightarrow> engine_state" where
  "deliver e uid rows st swap = snd (shouldNotify e st uid swap rows None None)"

section \<open>Concrete inputs\<close>

text \<open>An environment in which every lookup comes back empty and every delivery succeeds.\<close>

definition env0 :: env where
  "env0 =
     \<lparr>parseFloat = (\<lambda>s. NaN),
      getTokenData =
        (\<lambda>m s. \<lparr>price = 0, marketCap = 0, isHardcodedSupply = False, cached_symbol = None\<rparr>),
      getDexScreenerData = (\<lambda>m. \<lparr>dex_price = 0, dex_marketCap = 0, dex_symbol = None\<rparr>),
      deliveryFails = (\<lambda>u s. False)\<rparr>"

definition mk_token :: "string \<Rightarrow> string \<Rightarrow> real \<Rightarrow> token" where
  "mk_token m s a =
     \<lparr>mint = Some m, metadata = Some \<lparr>symbol = Some s, name = None\<rparr>, amount = a\<rparr>"

definition USDC_MINT :: string where
  "USDC_MINT = ''EPjFWdd5AufqSSqeM2qN1xzybapC8G4wEGGkZwyTDt1v''"

definition BONK_MINT :: string where
  "BONK_MINT = ''DezXAZ8z7PnrnRJjz3wXBoRgixCa6xjnB7YaB1pPB263''"

text \<open>\<open>new Map()\<close>: the engine as the constructor leaves it.\<close>

definition initial_state :: engine_state where
  "initial_state = Map.empty"

definition enabled_rows :: db_filters where
  "enabled_rows = Rows [\<lparr>filter_type = ''notifications_enabled'', filter_value = ''true''\<rparr>]"

definition unknown_kind_rows :: "filter_row list" where
  "unknown_kind_rows = [\<lparr>filter_type = ''unknown_kind'', filter_value = ''x''\<rparr>]"

definition whitelist_sol_rows :: db_filters where
  "whitelist_sol_rows =
     Rows [\<lparr>filter_type = ''monitor_all'', filter_value = ''false''\<rparr>,
           \<lparr>filter_type = ''token_whitelist'', filter_value = ''SOL''\<rparr>,
           \<lparr>filter_type = ''notifications_enabled'', filter_value = ''true''\<rparr>]"

definition whitelist_bonk_rows :: db_filters where
  "whitelist_bonk_rows =
     Rows [\<lparr>filter_type = ''monitor_all'', filter_value = ''false''\<rparr>,
           \<lparr>filter_type = ''token_whitelist'', filter_value = ''BONK''\<rparr>,
           \<lparr>filter_type = ''notifications_enabled'', filter_value = ''true''\<rparr>]"

definition blacklist_usdc_rows :: db_filters where
  "blacklist_usdc_rows =
     Rows [\<lparr>filter_type = ''monitor_all'', filter_value = ''true''\<rparr>,
           \<lparr>filter_type = ''token_blacklist'', filter_value = ''USDC''\<rparr>,
           \<lparr>filter_type = ''notifications_enabled'', filter_value = ''true''\<rparr>]"

definition enabled_filters :: user_filters where
  "enabled_filters = default_filters\<lparr>notifications_enabled := True\<rparr>"


definition min_purchase_filters :: user_filters where
  "min_purchase_filters = enabled_filters\<lparr>min_purchase := Some (Num 1000000)\<rparr>"

text \<open>Selling 2 SOL for 440 USDC.\<close>

definition sol_to_usdc_swap :: swap where
  "sol_to_usdc_swap =
     \<lparr>signature = Some ''sig1'', timestamp = ''1700000000'', feePayer = Some ''whale1'',
      inputToken = Some (mk_token SOL_MINT ''SOL'' 2),
      outputToken = Some (mk_token USDC_MINT ''USDC'' 440)\<rparr>"

text \<open>Selling BONK for 25 DAI.\<close>

definition bonk_to_dai_swap :: swap where
  "bonk_to_dai_swap =
     \<lparr>signature = Some ''sig2'', timestamp = ''1700000000'', feePayer = Some ''whale1'',
      inputToken = Some (mk_token BONK_MINT ''BONK'' 1000000),
      outputToken = Some (mk_token ''DAImint'' ''DAI'' 25)\<rparr>"

text \<open>Buying BONK with 1 SOL.\<close>

definition sol_to_bonk_swap :: swap where
  "sol_to_bonk_swap =
     \<lparr>signature = Some ''sig3'', timestamp = ''1700000000'', feePayer = Some ''whale1'',
      inputToken = Some (mk_token SOL_MINT ''SOL'' 1),
      outputToken = Some (mk_token BONK_MINT ''BONK'' 1000000)\<rparr>"

text \<open>A swap into a token whose mint has the spam prefix.\<close>

definition spam_swap :: swap where
  "spam_swap =
     \<lparr>signature = Some ''sig4'', timestamp = ''1700000000'', feePayer = Some ''whale1'',
      inputToken = Some (mk_token SOL_MINT ''SOL'' 1),
      outputToken = Some (mk_token ''XsSpamTokenMint'' ''SPAM'' 5)\<rparr>"

text \<open>Buying SOL with 100 USDC.\<close>

definition usdc_to_sol_swap :: swap where
  "usdc_to_sol_swap =
     \<lparr>signature = Some ''sig5'', timestamp = ''1700000000'', feePayer = Some ''whale1'',
      inputToken = Some (mk_token USDC_MINT ''USDC'' 100),
      outputToken = Some (mk_token SOL_MINT ''SOL'' (1 / 2))\<rparr>"

definition bonk_cache :: token_cache where
  "bonk_cache =
     [BONK_MINT \<mapsto> \<lparr>price = 1 / 50000, marketCap = 1500000, isHardcodedSupply = False,
                     cached_symbol = Some ''BONK''\<rparr>]"

text \<open>A store that knows SOL, with user 1 (notifications on) and user 2 (no rows).\<close>

definition db0 :: database where
  "db0 =
     \<lparr>unique_tokens = [(SOL_MINT, Some ''SOL'')],
      users = [1, 2],
      user_filter_rows =
        (\<lambda>u. if u = 1 then [\<lparr>filter_type = ''notifications_enabled'', filter_value = ''true''\<rparr>]
             else []),
      outages = []\<rparr>"

definition bot0 :: bot where
  "bot0 = \<lparr>db = db0, userProcessedSwaps = initial_state, calls = []\<rparr>"

text \<open>
  A family of swaps with pairwise different signatures, and the engine after the first
  hundred of them were delivered to user 1.
\<close>

definition ce_sig :: "nat \<Rightarrow> string" where
  "ce_sig n = CHR ''s'' # replicate n (CHR ''x'')"

definition ce_swap :: "nat \<Rightarrow> swap" where
  "ce_swap n =
     \<lparr>signature = Some (ce_sig n), timestamp = ''1700000000'', feePayer = Some ''whale1'',
      inputToken = Some (mk_token SOL_MINT ''SOL'' 1),
      outputToken = Some (mk_token BONK_MINT ''BONK'' 1000000)\<rparr>"

definition st100 :: engine_state where
  "st100 = foldl (deliver env0 1 enabled_rows) initial_state (map ce_swap [0..<100])"

section \<open>Facts about the checks\<close>

text \<open>
  With a non-empty list, both token-list checks call \<open>toLowerCase\<close> on a promise and
  raise; only the empty list gets an answer.
\<close>

lemma checkBlacklist_cases:
  "checkBlacklist e rt bl = (if bl = [] then Inr True else Inl TypeError)"
  by (simp add: checkBlacklist_def)

lemma checkTokenWhitelist_cases:
  "checkTokenWhitelist e rt wl = (if wl = [] then Inr False else Inl TypeError)"
  by (simp add: checkTokenWhitelist_def)

text \<open>
  The conversion guard compares promises with strings and never holds.
\<close>

lemma isConversion_never: "\<not> isConversion e swap"
  by (simp add: isConversion_def)





lemma stablecoins_calculateSwapValueUSD_set:
  "set stablecoins_calculateSwapValueUSD = set recognized_stablecoins"
  by (auto simp: stablecoins_calculateSwapValueUSD_def recognized_stablecoins_def)

section \<open>Facts about the delivery history\<close>

lemma foldl_set_delete:
  "foldl (\<lambda>zs old. set_delete old zs) ys ds = filter (\<lambda>y. y \<notin> set ds) ys"
proof (induction ds arbitrary: ys)
  case Nil
  show ?case by simp
next
  case (Cons d ds)
  have "foldl (\<lambda>zs old. set_delete old zs) ys (d # ds)
        = filter (\<lambda>y. y \<notin> set ds) (set_delete d ys)"
    by (simp add: Cons.IH)
  also have "\<dots> = filter (\<lambda>y. y \<notin> set (d # ds)) ys"
    by (simp add: set_delete_def conj_commute)
  finally show ?case .
qed

lemma recordSwap_eq:
  "recordSwap sid xs =
     (let ys = set_add sid xs
      in if length ys > 100 then filter (\<lambda>y. y \<notin> set (take 50 ys)) ys else ys)"
  by (simp add: recordSwap_def foldl_set_delete Let_def)

lemma filter_not_in_take_length:
  "length (filter (\<lambda>y. y \<notin> set (take n ys)) ys) \<le> length ys - n"
proof -
  have "filter (\<lambda>y. y \<notin> set (take n ys)) ys
        = filter (\<lambda>y. y \<notin> set (take n ys)) (take n ys) @
          filter (\<lambda>y. y \<notin> set (take n ys)) (drop n ys)"
    by (metis append_take_drop_id filter_append)
  moreover have "filter (\<lambda>y. y \<notin> set (take n ys)) (take n ys) = []"
    by (simp add: filter_empty_conv)
  ultimately have "length (filter (\<lambda>y. y \<notin> set (take n ys)) ys)
        = length (filter (\<lambda>y. y \<notin> set (take n ys)) (drop n ys))"
    by simp
  also have "\<dots> \<le> length (drop n ys)" by (rule length_filter_le)
  finally show ?thesis by simp
qed

lemma filter_not_in_take_distinct:
  assumes "distinct ys"
  shows "filter (\<lambda>y. y \<notin> set (take n ys)) ys = drop n ys"
proof -
  have split: "filter (\<lambda>y. y \<notin> set (take n ys)) ys
        = filter (\<lambda>y. y \<notin> set (take n ys)) (take n ys) @
          filter (\<lambda>y. y \<notin> set (take n ys)) (drop n ys)"
    by (metis append_take_drop_id filter_append)
  have a: "filter (\<lambda>y. y \<notin> set (take n ys)) (take n ys) = []"
    by (simp add: filter_empty_conv)
  have "set (take n ys) \<inter> set (drop n ys) = {}"
    using assms by (metis append_take_drop_id distinct_append)
  then have b: "filter (\<lambda>y. y \<notin> set (take n ys)) (drop n ys) = drop n ys"
    by (auto simp: filter_id_conv)
  from split a b show ?thesis by simp
qed

lemma length_recordSwap:
  assumes "length xs \<le> 100"
  shows "length (recordSwap sid xs) \<le> 100"
proof -
  let ?ys = "set_add sid xs"
  have l: "length ?ys \<le> 101" using assms by (simp add: set_add_def)
  show ?thesis
  proof (cases "length ?ys > 100")
    case True
    have "length (filter (\<lambda>y. y \<notin> set (take 50 ?ys)) ?ys) \<le> length ?ys - 50"
      by (rule filter_not_in_take_length)
    with l True show ?thesis by (simp add: recordSwap_eq Let_def)
  next
    case False
    then show ?thesis by (simp add: recordSwap_eq Let_def)
  qed
qed

lemma recordSwap_member:
  assumes "sid \<notin> set xs"
  shows "sid \<in> set (recordSwap sid xs)"
proof -
  have ys: "set_add sid xs = xs @ [sid]" using assms by (simp add: set_add_def)
  show ?thesis
  proof (cases "length (xs @ [sid]) > 100")
    case True
    then have "take 50 (xs @ [sid]) = take 50 xs" by simp
    then have "sid \<notin> set (take 50 (xs @ [sid]))"
      using assms by (metis in_set_takeD)
    with True show ?thesis by (simp add: recordSwap_eq ys Let_def)
  next
    case False
    then show ?thesis by (simp add: recordSwap_eq ys Let_def)
  qed
qed

lemma recordSwap_keeps:
  assumes "length xs < 100" "x \<in> set xs"
  shows "x \<in> set (recordSwap sid xs)"
  using assms by (auto simp: recordSwap_eq set_add_def Let_def)

lemma recordSwap_evicts:
  assumes "distinct xs" "sid \<notin> set xs" "length xs = 100"
  shows "recordSwap sid xs = drop 50 (xs @ [sid])"
proof -
  have ys: "set_add sid xs = xs @ [sid]" using assms by (simp add: set_add_def)
  have d: "distinct (xs @ [sid])" using assms by simp
  show ?thesis
    using assms(3) filter_not_in_take_distinct[OF d, of 50]
    by (simp add: recordSwap_eq ys Let_def)
qed

lemma distinct_recordSwap:
  "distinct xs \<Longrightarrow> distinct (recordSwap sid xs)"
  by (simp add: recordSwap_eq set_add_def Let_def)

section \<open>Facts about matchesFilters\<close>

lemma mf_duplicate:
  "swapId swap \<in> set (processedSwaps st uid) \<Longrightarrow>
   matchesFilters e st swap f fm uid c = (Inr no_match, st)"
  by (auto simp: matchesFilters_def processedSwaps_def Let_def split: option.splits)



lemma mf_rejectedEarly:
  assumes "fst (matchesFilters e st swap f fm uid c) = Inr r" "rejectedEarly e st swap f uid"
  shows "r = no_match"
  using assms
  by (auto simp: matchesFilters_def rejectedEarly_def processedSwaps_def Let_def
      split: option.splits if_splits sum.splits)

lemma mf_not_early:
  assumes "fst (matchesFilters e st swap f fm uid c) = Inr r" "\<not> rejectedEarly e st swap f uid"
  shows "\<exists>rt. relevantToken swap = Some rt \<and>
           (if first_mention_only f \<and> \<not> firstMentionFlag fm swap then r = no_match
            else isFirstMention r = firstMentionFlag fm swap \<and>
                 matches r = (\<not> userLevelRejection e swap f c rt))"
  using assms
  by (auto simp: matchesFilters_def rejectedEarly_def userLevelRejection_def firstMentionFlag_def
      processedSwaps_def Let_def checkBlacklist_cases checkTokenWhitelist_cases
      split: option.splits if_splits sum.splits)

text \<open>
  The engine state after a call.
\<close>

lemma mf_state:
  "snd (matchesFilters e st swap f fm uid c) = st \<or>
   snd (matchesFilters e st swap f fm uid c) = st(uid \<mapsto> processedSwaps st uid) \<or>
   (\<exists>r. fst (matchesFilters e st swap f fm uid c) = Inr r \<and> matches r \<and>
        swapId swap \<notin> set (processedSwaps st uid) \<and>
        snd (matchesFilters e st swap f fm uid c) =
          st(uid \<mapsto> recordSwap (swapId swap) (processedSwaps st uid)))"
  by (auto simp: matchesFilters_def processedSwaps_def Let_def no_match_def
      split: option.splits if_splits sum.splits)

lemma mf_match_state:
  assumes "matchesFilters e st swap f fm uid c = (Inr r, st')" "matches r"
  shows "swapId swap \<notin> set (processedSwaps st uid) \<and>
         st' = st(uid \<mapsto> recordSwap (swapId swap) (processedSwaps st uid))"
  using assms
  by (auto simp: matchesFilters_def processedSwaps_def Let_def no_match_def
      split: option.splits if_splits sum.splits)

lemma mf_processed:
  "processedSwaps (snd (matchesFilters e st swap f fm uid c)) u = processedSwaps st u \<or>
   (u = uid \<and> swapId swap \<notin> set (processedSwaps st uid) \<and>
    processedSwaps (snd (matchesFilters e st swap f fm uid c)) u =
      recordSwap (swapId swap) (processedSwaps st uid))"
proof -
  let ?st' = "snd (matchesFilters e st swap f fm uid c)"
  consider (same) "?st' = st"
    | (init) "?st' = st(uid \<mapsto> processedSwaps st uid)"
    | (rec) "swapId swap \<notin> set (processedSwaps st uid)"
        "?st' = st(uid \<mapsto> recordSwap (swapId swap) (processedSwaps st uid))"
    using mf_state[of e st swap f fm uid c] by blast
  then show ?thesis
  proof cases
    case same
    then show ?thesis by simp
  next
    case init
    then show ?thesis by (cases "u = uid") (simp_all add: processedSwaps_def)
  next
    case rec
    then show ?thesis by (cases "u = uid") (simp_all add: processedSwaps_def)
  qed
qed

section \<open>Facts about processFilters\<close>

lemma foldl_tokens:
  "''token_whitelist'' \<notin> filter_type ` set rows \<Longrightarrow>
   tokens (foldl (processFilterRow e) acc rows) = tokens acc"
  by (induction rows arbitrary: acc) (auto simp: processFilterRow_def)

lemma foldl_blacklist:
  "''token_blacklist'' \<notin> filter_type ` set rows \<Longrightarrow>
   blacklist (foldl (processFilterRow e) acc rows) = blacklist acc"
  by (induction rows arbitrary: acc) (auto simp: processFilterRow_def)

lemma foldl_whale_blacklist:
  "''whale_blacklist'' \<notin> filter_type ` set rows \<Longrightarrow>
   whale_blacklist (foldl (processFilterRow e) acc rows) = whale_blacklist acc"
  by (induction rows arbitrary: acc) (auto simp: processFilterRow_def)

lemma foldl_min_purchase:
  "''min_purchase'' \<notin> filter_type ` set rows \<Longrightarrow>
   min_purchase (foldl (processFilterRow e) acc rows) = min_purchase acc"
  by (induction rows arbitrary: acc) (auto simp: processFilterRow_def)

lemma foldl_max_market_cap:
  "''max_market_cap'' \<notin> filter_type ` set rows \<Longrightarrow>
   max_market_cap (foldl (processFilterRow e) acc rows) = max_market_cap acc"
  by (induction rows arbitrary: acc) (auto simp: processFilterRow_def)

lemma foldl_monitor_all:
  "''monitor_all'' \<notin> filter_type ` set rows \<Longrightarrow>
   monitor_all (foldl (processFilterRow e) acc rows) = monitor_all acc"
  by (induction rows arbitrary: acc) (auto simp: processFilterRow_def)

lemma foldl_notifications_enabled:
  "''notifications_enabled'' \<notin> filter_type ` set rows \<Longrightarrow>
   notifications_enabled (foldl (processFilterRow e) acc rows) = notifications_enabled acc"
  by (induction rows arbitrary: acc) (auto simp: processFilterRow_def)

lemma foldl_first_mention_only:
  "''first_mention_only'' \<notin> filter_type ` set rows \<Longrightarrow>
   first_mention_only (foldl (processFilterRow e) acc rows) = first_mention_only acc"
  by (induction rows arbitrary: acc) (auto simp: processFilterRow_def)

lemma enabled_rows_filters: "processFilters e enabled_rows = enabled_filters"
  by (simp add: processFilters_def enabled_rows_def enabled_filters_def processFilterRow_def)

section \<open>Facts about the concrete inputs\<close>

lemma ce_sig_inj: "(ce_sig a = ce_sig b) = (a = b)"
  by (auto simp: ce_sig_def replicate_eq_replicate)

lemma ce_sig_fresh: "(ce_sig n \<in> set (map ce_sig [a..<b])) = (a \<le> n \<and> n < b)"
  by (auto simp: ce_sig_inj)

lemma ce_swap_id: "swapId (ce_swap n) = ce_sig n"
  by (simp add: swapId_def ce_swap_def truthy_def ce_sig_def)

lemma ce_swap_relevant: "relevantToken (ce_swap n) = Some (mk_token BONK_MINT ''BONK'' 1000000)"
  by (simp add: relevantToken_def isBuyTransaction_def ce_swap_def meta_symbol_def mk_token_def
      stablecoins_isBuyTransaction_def)

lemma ce_swap_not_early:
  "\<not> isSpamMint (opt_mint (inputToken (ce_swap n)))"
  "\<not> isSpamMint (opt_mint (outputToken (ce_swap n)))"
  "\<not> includesOpt hardcodedBlacklist (opt_mint (inputToken (ce_swap n)))"
  "\<not> includesOpt hardcodedBlacklist (opt_mint (outputToken (ce_swap n)))"
  "\<not> includesOpt hardcodedWhaleBlacklist (feePayer (ce_swap n))"
  by (simp_all add: ce_swap_def mk_token_def opt_mint_def isSpamMint_def startsWith_def
      includesOpt_def hardcodedBlacklist_def hardcodedWhaleBlacklist_def SOL_MINT_def BONK_MINT_def)

lemma ce_step:
  assumes "ce_sig n \<notin> set (processedSwaps st 1)"
  shows "shouldNotify env0 st 1 (ce_swap n) enabled_rows None None =
           (Inr \<lparr>matches = True, isFirstMention = False\<rparr>,
            st(1 \<mapsto> recordSwap (ce_sig n) (processedSwaps st 1)))"
  using assms
  by (auto simp: shouldNotify_def enabled_rows_filters matchesFilters_def ce_swap_id
      isConversion_never ce_swap_not_early ce_swap_relevant enabled_filters_def default_filters_def
      checkBlacklist_cases checkWhaleBlacklist_def checkMinimumPurchase_def
      marketCapFilterActive_def processedSwaps_def Let_def)

lemma ce_fold:
  "k \<le> 100 \<Longrightarrow>
   processedSwaps (foldl (deliver env0 1 enabled_rows) initial_state (map ce_swap [0..<k])) 1
     = map ce_sig [0..<k]"
proof (induction k)
  case 0
  show ?case by (simp add: processedSwaps_def initial_state_def)
next
  case (Suc k)
  let ?st = "foldl (deliver env0 1 enabled_rows) initial_state (map ce_swap [0..<k])"
  from Suc have ih: "processedSwaps ?st 1 = map ce_sig [0..<k]" by simp
  have fresh: "ce_sig k \<notin> set (processedSwaps ?st 1)"
    by (simp only: ih ce_sig_fresh) simp
  have "processedSwaps (deliver env0 1 enabled_rows ?st (ce_swap k)) 1
        = recordSwap (ce_sig k) (map ce_sig [0..<k])"
    by (simp add: deliver_def ce_step[OF fresh] processedSwaps_def ih[unfolded processedSwaps_def])
  also have "\<dots> = map ce_sig [0..<k] @ [ce_sig k]"
    using Suc.prems fresh by (simp add: recordSwap_eq set_add_def ih Let_def)
  finally show ?case by simp
qed

lemma ce_after_101:
  "processedSwaps (foldl (deliver env0 1 enabled_rows) initial_state (map ce_swap [0..<101])) 1
     = map ce_sig [50..<101]"
proof -
  let ?st = "foldl (deliver env0 1 enabled_rows) initial_state (map ce_swap [0..<100])"
  have ps: "processedSwaps ?st 1 = map ce_sig [0..<100]" by (rule ce_fold) simp
  have fresh: "ce_sig 100 \<notin> set (processedSwaps ?st 1)"
    by (simp only: ps ce_sig_fresh) simp
  have d: "distinct (map ce_sig [0..<100])"
    by (simp add: distinct_map inj_on_def ce_sig_inj)
  have split: "[0..<101] = [0..<100] @ [100]"
    using upt_Suc_append[of 0 100] by simp
  have "processedSwaps (foldl (deliver env0 1 enabled_rows) initial_state (map ce_swap [0..<101])) 1
        = processedSwaps (deliver env0 1 enabled_rows ?st (ce_swap 100)) 1"
    by (simp only: split map_append foldl_append list.map foldl.simps)
  also have "\<dots> = recordSwap (ce_sig 100) (map ce_sig [0..<100])"
    by (simp add: deliver_def ce_step[OF fresh] processedSwaps_def ps[unfolded processedSwaps_def])
  also have "\<dots> = drop 50 (map ce_sig [0..<100] @ [ce_sig 100])"
    using fresh d by (intro recordSwap_evicts) (simp_all add: ps)
  also have "\<dots> = drop 50 (map ce_sig [0..<101])"
    by (simp only: split map_append list.map)
  also have "\<dots> = map ce_sig [50..<101]"
    by (simp add: drop_map)
  finally show ?thesis .
qed

section \<open>Facts about the store and the poll cycle\<close>

lemma pool_query_tables:
  "unique_tokens (snd (pool_query d)) = unique_tokens d"
  "users (snd (pool_query d)) = users d"
  "user_filter_rows (snd (pool_query d)) = user_filter_rows d"
  by (simp_all add: pool_query_def split: list.splits)

lemma pool_query_no_outage:
  "outages d = [] \<Longrightarrow> pool_query d = (False, d)"
  by (simp add: pool_query_def)

lemma isTokenKnown_reads:
  "unique_tokens (snd (isTokenKnown d k)) = unique_tokens d"
  "fst (isTokenKnown d k) \<or> k \<notin> known d"
  by (auto simp: isTokenKnown_def known_def pool_query_def split: list.splits prod.splits)

lemma isTokenKnown_no_outage:
  "outages d = [] \<Longrightarrow> isTokenKnown d k = (k \<in> known d, d)"
  by (simp add: isTokenKnown_def known_def pool_query_no_outage)

lemma isTokenKnown_result:
  assumes "isTokenKnown d k = (r, d')"
  shows "unique_tokens d' = unique_tokens d" and "r \<or> k \<notin> known d"
  using assms isTokenKnown_reads[of d k] by auto

lemma noteIfUnknown_cases:
  assumes "noteIfUnknown m (fm, b) = (fm', b')"
  obtains (skip) "fm' = fm" "b' = b" "\<not> truthy m"
    | (ask) k r d' where "m = Some k" "k \<noteq> []" "isTokenKnown (db b) k = (r, d')"
        "b' = b\<lparr>db := d', calls := calls b @ [IsTokenKnown k]\<rparr>"
        "fm' = (if \<not> r then set_add k fm else fm)"
  using assms
  by (auto simp: noteIfUnknown_def Let_def truthy_def split: option.splits if_splits prod.splits)

lemma noteIfUnknown_reads:
  assumes "noteIfUnknown m (fm, b) = (fm', b')"
  shows "unique_tokens (db b') = unique_tokens (db b)"
    and "userProcessedSwaps b' = userProcessedSwaps b"
    and "\<exists>evs. calls b' = calls b @ evs \<and> (\<forall>x \<in> set evs. isDetection x)"
    and "distinct fm \<longrightarrow> distinct fm'"
    and "set fm' \<subseteq> set fm \<union> ({k. m = Some k \<and> k \<noteq> []} - known (db b))"
    and "outages (db b) = [] \<longrightarrow>
           outages (db b') = [] \<and>
           set fm' = set fm \<union> ({k. m = Some k \<and> k \<noteq> []} - known (db b))"
proof -
  from assms show "unique_tokens (db b') = unique_tokens (db b)"
    by (cases rule: noteIfUnknown_cases) (auto dest: isTokenKnown_result)
  from assms show "userProcessedSwaps b' = userProcessedSwaps b"
    by (cases rule: noteIfUnknown_cases) auto
  from assms show "\<exists>evs. calls b' = calls b @ evs \<and> (\<forall>x \<in> set evs. isDetection x)"
    by (cases rule: noteIfUnknown_cases) auto
  from assms show "distinct fm \<longrightarrow> distinct fm'"
    by (cases rule: noteIfUnknown_cases) (auto simp: set_add_def)
  from assms show "set fm' \<subseteq> set fm \<union> ({k. m = Some k \<and> k \<noteq> []} - known (db b))"
    by (cases rule: noteIfUnknown_cases) (auto simp: set_add_def dest: isTokenKnown_result)
  from assms show "outages (db b) = [] \<longrightarrow>
           outages (db b') = [] \<and>
           set fm' = set fm \<union> ({k. m = Some k \<and> k \<noteq> []} - known (db b))"
    by (cases rule: noteIfUnknown_cases)
       (auto simp: set_add_def isTokenKnown_no_outage truthy_def split: option.splits)
qed

lemma swapMints_Cons:
  "swapMints (swap # swaps) =
     {k. opt_mint (inputToken swap) = Some k \<and> k \<noteq> []} \<union>
     {k. opt_mint (outputToken swap) = Some k \<and> k \<noteq> []} \<union> swapMints swaps"
  by (auto simp: swapMints_def)

lemma known_cong: "unique_tokens d' = unique_tokens d \<Longrightarrow> known d' = known d"
  by (simp add: known_def)

lemma detectFirstMentions_reads:
  "detectFirstMentions swaps (fm, b) = (fm', b') \<Longrightarrow>
     unique_tokens (db b') = unique_tokens (db b) \<and>
     userProcessedSwaps b' = userProcessedSwaps b \<and>
     (\<exists>evs. calls b' = calls b @ evs \<and> (\<forall>x \<in> set evs. isDetection x)) \<and>
     (distinct fm \<longrightarrow> distinct fm') \<and>
     set fm' \<subseteq> set fm \<union> (swapMints swaps - known (db b)) \<and>
     (outages (db b) = [] \<longrightarrow>
        outages (db b') = [] \<and> set fm' = set fm \<union> (swapMints swaps - known (db b)))"
proof (induction swaps arbitrary: fm b)
  case Nil
  then show ?case by (simp add: swapMints_def)
next
  case (Cons swap swaps)
  obtain fm1 b1 where n1: "noteIfUnknown (opt_mint (inputToken swap)) (fm, b) = (fm1, b1)"
    by (cases "noteIfUnknown (opt_mint (inputToken swap)) (fm, b)")
  obtain fm2 b2 where n2: "noteIfUnknown (opt_mint (outputToken swap)) (fm1, b1) = (fm2, b2)"
    by (cases "noteIfUnknown (opt_mint (outputToken swap)) (fm1, b1)")
  from Cons.prems n1 n2 have rest: "detectFirstMentions swaps (fm2, b2) = (fm', b')" by simp
  note r1 = noteIfUnknown_reads[OF n1]
  note r2 = noteIfUnknown_reads[OF n2]
  note ih = Cons.IH[OF rest]
  have k1: "known (db b1) = known (db b)" using r1(1) by (rule known_cong)
  have k2: "known (db b2) = known (db b)" using r2(1) r1(1) by (simp add: known_def)
  from r1(3) obtain ev1 where ev1: "calls b1 = calls b @ ev1" "\<forall>x \<in> set ev1. isDetection x"
    by blast
  from r2(3) obtain ev2 where ev2: "calls b2 = calls b1 @ ev2" "\<forall>x \<in> set ev2. isDetection x"
    by blast
  from ih obtain ev3 where ev3: "calls b' = calls b2 @ ev3" "\<forall>x \<in> set ev3. isDetection x"
    by blast
  have calls: "calls b' = calls b @ (ev1 @ ev2 @ ev3) \<and>
               (\<forall>x \<in> set (ev1 @ ev2 @ ev3). isDetection x)"
    using ev1 ev2 ev3 by auto
  have sub: "set fm' \<subseteq> set fm \<union> (swapMints (swap # swaps) - known (db b))"
    using ih r1(5) r2(5) k1 k2 by (auto simp: swapMints_Cons)
  have full: "outages (db b) = [] \<longrightarrow>
        outages (db b') = [] \<and>
        set fm' = set fm \<union> (swapMints (swap # swaps) - known (db b))"
  proof
    assume o: "outages (db b) = []"
    with r1(6) have o1: "outages (db b1) = []"
      and s1: "set fm1 = set fm \<union>
                 ({k. opt_mint (inputToken swap) = Some k \<and> k \<noteq> []} - known (db b))"
      by blast+
    with r2(6) k1 have o2: "outages (db b2) = []"
      and s2: "set fm2 = set fm1 \<union>
                 ({k. opt_mint (outputToken swap) = Some k \<and> k \<noteq> []} - known (db b))"
      by auto
    with ih k2 have o3: "outages (db b') = []"
      and s3: "set fm' = set fm2 \<union> (swapMints swaps - known (db b))"
      by auto
    from o3 s1 s2 s3 show "outages (db b') = [] \<and>
        set fm' = set fm \<union> (swapMints (swap # swaps) - known (db b))"
      by (auto simp: swapMints_Cons)
  qed
  from ih r1 r2 calls sub full show ?case by (metis (no_types, lifting))
qed

lemma notifySwaps_calls:
  "notifySwaps e enabled uid rows fm cache swaps b = (r, b') \<Longrightarrow>
     db b' = db b \<and> (\<exists>evs. calls b' = calls b @ evs \<and> (\<forall>x \<in> set evs. isEvaluation x))"
proof (induction swaps arbitrary: b)
  case Nil
  then show ?case by simp
next
  case (Cons swap swaps)
  obtain res st' where sn:
    "shouldNotify e (userProcessedSwaps b) uid swap (Rows rows) (Some fm) (Some cache) = (res, st')"
    by (cases "shouldNotify e (userProcessedSwaps b) uid swap (Rows rows) (Some fm) (Some cache)")
  let ?b1 = "b\<lparr>userProcessedSwaps := st', calls := calls b @ [ShouldNotify uid (swapId swap)]\<rparr>"
  let ?b2 = "?b1\<lparr>calls := calls ?b1 @ [Notify uid (swapId swap)]\<rparr>"
  show ?case
  proof (cases res)
    case (Inl err)
    with Cons.prems sn show ?thesis by auto
  next
    case (Inr result)
    show ?thesis
    proof (cases "matches result")
      case False
      with Cons.prems sn Inr
      have "notifySwaps e enabled uid rows fm cache swaps ?b1 = (r, b')" by simp
      from Cons.IH[OF this] show ?thesis by auto
    next
      case True
      show ?thesis
      proof (cases "deliveryFails e uid swap \<and> \<not> enabled")
        case True
        with Cons.prems sn Inr \<open>matches result\<close> show ?thesis by auto
      next
        case False
        with Cons.prems sn Inr \<open>matches result\<close>
        have "notifySwaps e enabled uid rows fm cache swaps ?b2 = (r, b')" by (simp add: Let_def)
        from Cons.IH[OF this] show ?thesis by auto
      qed
    qed
  qed
qed

lemma getUserFilters_reads:
  "unique_tokens (snd (getUserFilters d u)) = unique_tokens d"
  "users (snd (getUserFilters d u)) = users d"
  by (simp_all add: getUserFilters_def pool_query_def split: list.splits)

lemma getAllUsers_reads:
  "unique_tokens (snd (getAllUsers d)) = unique_tokens d"
  "fst (getAllUsers d) = Inr us \<Longrightarrow> us = users d"
  "outages d = [] \<Longrightarrow> getAllUsers d = (Inr (users d), d)"
  by (auto simp: getAllUsers_def pool_query_def split: list.splits if_splits)

lemma isEvaluation_not_filters:
  "filter isGetUserFilters evs = [] \<longleftrightarrow> (\<forall>x \<in> set evs. \<not> isGetUserFilters x)"
  by (simp add: filter_empty_conv)

lemma notifySwaps_no_filters:
  "notifySwaps e enabled uid rows fm cache swaps b = (r, b') \<Longrightarrow>
     filter isGetUserFilters (calls b') = filter isGetUserFilters (calls b)"
proof (induction swaps arbitrary: b)
  case Nil
  then show ?case by simp
next
  case (Cons swap swaps)
  obtain res st' where sn:
    "shouldNotify e (userProcessedSwaps b) uid swap (Rows rows) (Some fm) (Some cache) = (res, st')"
    by (cases "shouldNotify e (userProcessedSwaps b) uid swap (Rows rows) (Some fm) (Some cache)")
  let ?b1 = "b\<lparr>userProcessedSwaps := st', calls := calls b @ [ShouldNotify uid (swapId swap)]\<rparr>"
  let ?b2 = "?b1\<lparr>calls := calls ?b1 @ [Notify uid (swapId swap)]\<rparr>"
  show ?case
  proof (cases res)
    case (Inl err)
    with Cons.prems sn show ?thesis by auto
  next
    case (Inr result)
    show ?thesis
    proof (cases "matches result")
      case False
      with Cons.prems sn Inr
      have "notifySwaps e enabled uid rows fm cache swaps ?b1 = (r, b')" by simp
      from Cons.IH[OF this] show ?thesis by auto
    next
      case True
      show ?thesis
      proof (cases "deliveryFails e uid swap \<and> \<not> enabled")
        case True
        with Cons.prems sn Inr \<open>matches result\<close> show ?thesis by auto
      next
        case False
        with Cons.prems sn Inr \<open>matches result\<close>
        have "notifySwaps e enabled uid rows fm cache swaps ?b2 = (r, b')" by (simp add: Let_def)
        from Cons.IH[OF this] show ?thesis by auto
      qed
    qed
  qed
qed

lemma processUser_calls:
  "unique_tokens (db (processUser e fm cache swaps b uid)) = unique_tokens (db b) \<and>
   users (db (processUser e fm cache swaps b uid)) = users (db b) \<and>
   (\<exists>evs. calls (processUser e fm cache swaps b uid) = calls b @ evs \<and>
          (\<forall>x \<in> set evs. isEvaluation x) \<and> filter isGetUserFilters evs = [GetUserFilters uid])"
proof -
  obtain res d' where g: "getUserFilters (db b) uid = (res, d')"
    by (cases "getUserFilters (db b) uid")
  then have ut: "unique_tokens d' = unique_tokens (db b)" "users d' = users (db b)"
    using getUserFilters_reads[of "db b" uid] by auto
  let ?b0 = "b\<lparr>db := d', calls := calls b @ [GetUserFilters uid]\<rparr>"
  show ?thesis
  proof (cases res)
    case (Inl err)
    with g ut show ?thesis by (simp add: processUser_def)
  next
    case (Inr rows)
    let ?en = "notifications_enabled (processFilters e (Rows rows))"
    obtain r b' where n: "notifySwaps e ?en uid rows fm cache swaps ?b0 = (r, b')"
      by (cases "notifySwaps e ?en uid rows fm cache swaps ?b0")
    from notifySwaps_calls[OF n] obtain evs where
      evs: "db b' = db ?b0" "calls b' = calls ?b0 @ evs" "\<forall>x \<in> set evs. isEvaluation x"
      by blast
    from notifySwaps_no_filters[OF n] evs(2)
    have nf: "filter isGetUserFilters evs = []" by simp
    have pu: "processUser e fm cache swaps b uid = b'"
      using g Inr n by (simp add: processUser_def)
    have "calls b' = calls b @ (GetUserFilters uid # evs) \<and>
          (\<forall>x \<in> set (GetUserFilters uid # evs). isEvaluation x) \<and>
          filter isGetUserFilters (GetUserFilters uid # evs) = [GetUserFilters uid]"
      using evs nf by simp
    moreover have "db b' = d'" using evs(1) by simp
    ultimately show ?thesis unfolding pu using ut by blast
  qed
qed

lemma processUsers_calls:
  "unique_tokens (db (foldl (processUser e fm cache swaps) b us)) = unique_tokens (db b) \<and>
   (\<exists>evs. calls (foldl (processUser e fm cache swaps) b us) = calls b @ evs \<and>
          (\<forall>x \<in> set evs. isEvaluation x) \<and>
          filter isGetUserFilters evs = map GetUserFilters us)"
proof (induction us arbitrary: b)
  case Nil
  show ?case by simp
next
  case (Cons u us)
  let ?b1 = "processUser e fm cache swaps b u"
  from processUser_calls[of e fm cache swaps b u] obtain ev1 where
    p: "unique_tokens (db ?b1) = unique_tokens (db b)" "calls ?b1 = calls b @ ev1"
       "\<forall>x \<in> set ev1. isEvaluation x" "filter isGetUserFilters ev1 = [GetUserFilters u]"
    by blast
  from Cons.IH[of ?b1] obtain ev2 where
    q: "unique_tokens (db (foldl (processUser e fm cache swaps) ?b1 us)) = unique_tokens (db ?b1)"
       "calls (foldl (processUser e fm cache swaps) ?b1 us) = calls ?b1 @ ev2"
       "\<forall>x \<in> set ev2. isEvaluation x" "filter isGetUserFilters ev2 = map GetUserFilters us"
    by blast
  have "calls (foldl (processUser e fm cache swaps) b (u # us)) = calls b @ (ev1 @ ev2) \<and>
        (\<forall>x \<in> set (ev1 @ ev2). isEvaluation x) \<and>
        filter isGetUserFilters (ev1 @ ev2) = map GetUserFilters (u # us)"
    using p q by auto
  moreover have "unique_tokens (db (foldl (processUser e fm cache swaps) b (u # us)))
                 = unique_tokens (db b)"
    using p q by simp
  ultimately show ?case by blast
qed

lemma commitFirstMentions_calls:
  "calls (commitFirstMentions cache fm b) = calls b @ map (commitCall cache) fm"
  by (induction fm arbitrary: b) (simp_all add: Let_def commitCall_def split: prod.splits)

lemma mark_known:
  "k \<in> known d \<Longrightarrow> unique_tokens (snd (markTokenAsFirstMentioned d k s)) = unique_tokens d"
  by (auto simp: markTokenAsFirstMentioned_def known_def pool_query_def
      split: list.splits prod.splits)

lemma mark_success:
  "\<not> fst (pool_query d) \<Longrightarrow> fst (markTokenAsFirstMentioned d k s)"
  by (auto simp: markTokenAsFirstMentioned_def split: prod.splits)

lemma mark_records:
  "\<not> fst (pool_query d) \<Longrightarrow> k \<in> known (snd (markTokenAsFirstMentioned d k s))"
  by (auto simp: markTokenAsFirstMentioned_def known_def pool_query_def
      split: list.splits prod.splits)

lemma commitFirstMentions_db:
  "db (commitFirstMentions cache fm b) = foldl (applyCommit cache) (db b) fm"
  by (induction fm arbitrary: b) (simp_all add: Let_def applyCommit_def split: prod.splits)

lemma applyCommit_no_outage:
  assumes "outages d = []"
  shows "outages (applyCommit cache d k) = []"
    and "k \<notin> known d \<Longrightarrow>
         unique_tokens (applyCommit cache d k) = unique_tokens d @ [commitRow cache k]"
    and "k \<in> known d \<Longrightarrow> unique_tokens (applyCommit cache d k) = unique_tokens d"
  using assms
  by (simp_all add: applyCommit_def markTokenAsFirstMentioned_def pool_query_no_outage
      commitRow_def known_def)

lemma commits_no_outage:
  "outages d = [] \<Longrightarrow> distinct fm \<Longrightarrow> set fm \<inter> known d = {} \<Longrightarrow>
   unique_tokens (foldl (applyCommit cache) d fm) = unique_tokens d @ map (commitRow cache) fm"
proof (induction fm arbitrary: d)
  case Nil
  show ?case by simp
next
  case (Cons k fm)
  let ?d1 = "applyCommit cache d k"
  from Cons.prems have kn: "k \<notin> known d" by auto
  have o1: "outages ?d1 = []" using Cons.prems(1) by (rule applyCommit_no_outage(1))
  have u1: "unique_tokens ?d1 = unique_tokens d @ [commitRow cache k]"
    using Cons.prems(1) kn by (rule applyCommit_no_outage(2))
  have k1: "known ?d1 = insert k (known d)"
    by (simp add: known_def u1 commitRow_def)
  have disj: "set fm \<inter> known ?d1 = {}" using Cons.prems(2,3) by (auto simp: k1)
  have d: "distinct fm" using Cons.prems(2) by simp
  from Cons.IH[OF o1 d disj] show ?case by (simp add: u1)
qed

lemma applyCommit_extends:
  "\<exists>new. unique_tokens (applyCommit cache d k) = unique_tokens d @ new \<and>
         set new \<subseteq> {commitRow cache k}"
  by (auto simp: applyCommit_def markTokenAsFirstMentioned_def pool_query_def commitRow_def
      split: list.splits)

lemma commits_extend:
  "\<exists>new. unique_tokens (foldl (applyCommit cache) d fm) = unique_tokens d @ new \<and>
         set new \<subseteq> commitRow cache ` set fm"
proof (induction fm arbitrary: d)
  case Nil
  show ?case by simp
next
  case (Cons k fm)
  from applyCommit_extends[of cache d k] obtain n1 where
    n1: "unique_tokens (applyCommit cache d k) = unique_tokens d @ n1"
        "set n1 \<subseteq> {commitRow cache k}" by blast
  from Cons.IH[of "applyCommit cache d k"] obtain n2 where
    n2: "unique_tokens (foldl (applyCommit cache) (applyCommit cache d k) fm)
           = unique_tokens (applyCommit cache d k) @ n2"
        "set n2 \<subseteq> commitRow cache ` set fm" by blast
  have "unique_tokens (foldl (applyCommit cache) d (k # fm)) = unique_tokens d @ (n1 @ n2) \<and>
        set (n1 @ n2) \<subseteq> commitRow cache ` set (k # fm)"
    using n1 n2 by auto
  then show ?case by blast
qed

lemma getUserFilters_no_outage:
  "outages d = [] \<Longrightarrow> getUserFilters d u = (Inr (user_filter_rows d u), d)"
  by (simp add: getUserFilters_def pool_query_no_outage)

lemma processUser_db:
  "db (processUser e fm cache swaps b uid) = snd (getUserFilters (db b) uid)"
proof -
  obtain res d' where g: "getUserFilters (db b) uid = (res, d')"
    by (cases "getUserFilters (db b) uid")
  let ?b0 = "b\<lparr>db := d', calls := calls b @ [GetUserFilters uid]\<rparr>"
  show ?thesis
  proof (cases res)
    case (Inl err)
    with g show ?thesis by (simp add: processUser_def)
  next
    case (Inr rows)
    let ?en = "notifications_enabled (processFilters e (Rows rows))"
    obtain r b' where n: "notifySwaps e ?en uid rows fm cache swaps ?b0 = (r, b')"
      by (cases "notifySwaps e ?en uid rows fm cache swaps ?b0")
    from notifySwaps_calls[OF n] have "db b' = d'" by simp
    with g Inr n show ?thesis by (simp add: processUser_def)
  qed
qed

lemma processUsers_no_outage:
  "outages (db b) = [] \<Longrightarrow> db (foldl (processUser e fm cache swaps) b us) = db b"
  by (induction us arbitrary: b) (simp_all add: processUser_db getUserFilters_no_outage)

lemma known_append: "unique_tokens d' = unique_tokens d @ map (commitRow cache) fm \<Longrightarrow>
   known d' = known d \<union> set fm"
  by (auto simp: known_def commitRow_def image_Un image_image)

lemma cycle_store:
  "\<exists>det ev fm dmid.
     calls (checkForNewSwaps e feed cache b) = calls b @ det @ ev @ map (commitCall cache) fm \<and>
     (\<forall>x \<in> set det. isDetection x) \<and> (\<forall>x \<in> set ev. isEvaluation x) \<and>
     distinct fm \<and> set fm \<subseteq> swapMints (feedSwaps feed) - known (db b) \<and>
     (fm \<noteq> [] \<longrightarrow> filter isGetUserFilters ev = map GetUserFilters (users (db b))) \<and>
     (outages (db b) = [] \<longrightarrow> set fm = swapMints (feedSwaps feed) - known (db b)) \<and>
     unique_tokens dmid = unique_tokens (db b) \<and>
     db (checkForNewSwaps e feed cache b) = foldl (applyCommit cache) dmid fm \<and>
     (\<exists>new. unique_tokens (db (checkForNewSwaps e feed cache b)) = unique_tokens (db b) @ new \<and>
            set new \<subseteq> commitRow cache ` set fm) \<and>
     (outages (db b) = [] \<longrightarrow>
        unique_tokens (db (checkForNewSwaps e feed cache b))
          = unique_tokens (db b) @ map (commitRow cache) fm \<and>
        known (db (checkForNewSwaps e feed cache b))
          = known (db b) \<union> swapMints (feedSwaps feed))"
  (is "\<exists>det ev fm dmid. ?P (checkForNewSwaps e feed cache b) det ev fm dmid")
proof -
  have trivial: "?P b' [] [] [] (db b')"
    if "calls b' = calls b" "unique_tokens (db b') = unique_tokens (db b)"
       "outages (db b) = [] \<longrightarrow> swapMints (feedSwaps feed) \<subseteq> known (db b)" for b'
    using that by (auto simp: known_def)
  show ?thesis
  proof (cases feed)
    case None
    have "?P (checkForNewSwaps e feed cache b) [] [] [] (db (checkForNewSwaps e feed cache b))"
      by (rule trivial) (simp_all add: None checkForNewSwaps_def feedSwaps_def swapMints_def)
    then show ?thesis by blast
  next
    case (Some swaps)
    show ?thesis
    proof (cases "swaps = []")
      case True
      have "?P (checkForNewSwaps e feed cache b) [] [] [] (db (checkForNewSwaps e feed cache b))"
        by (rule trivial)
           (simp_all add: Some True checkForNewSwaps_def feedSwaps_def swapMints_def)
      then show ?thesis by blast
    next
      case False
      obtain res d' where g: "getAllUsers (db b) = (res, d')"
        by (cases "getAllUsers (db b)")
      then have ut: "unique_tokens d' = unique_tokens (db b)"
        using getAllUsers_reads(1)[of "db b"] by simp
      let ?b0 = "b\<lparr>db := d'\<rparr>"
      show ?thesis
      proof (cases res)
        case (Inl err)
        have no: "outages (db b) \<noteq> []"
          using g Inl getAllUsers_reads(3)[of "db b"] by auto
        have r: "checkForNewSwaps e feed cache b = ?b0"
          using Some False g Inl by (simp add: checkForNewSwaps_def)
        have "?P (checkForNewSwaps e feed cache b) [] [] []
                (db (checkForNewSwaps e feed cache b))"
          by (rule trivial) (simp_all add: r ut no)
        then show ?thesis by blast
      next
        case (Inr us)
        then have us: "us = users (db b)"
          using g getAllUsers_reads(2)[of "db b" us] by simp
        obtain fm b1 where d: "detectFirstMentions swaps ([], ?b0) = (fm, b1)"
          by (cases "detectFirstMentions swaps ([], ?b0)")
        note dr = detectFirstMentions_reads[OF d]
        from dr obtain det where det: "calls b1 = calls b @ det" "\<forall>x \<in> set det. isDetection x"
          by auto
        let ?b2 = "foldl (processUser e fm cache swaps) b1 us"
        from processUsers_calls[of e fm cache swaps b1 us] obtain ev where
          ev: "calls ?b2 = calls b1 @ ev" "\<forall>x \<in> set ev. isEvaluation x"
              "filter isGetUserFilters ev = map GetUserFilters us"
          and ut2: "unique_tokens (db ?b2) = unique_tokens (db b1)"
          by blast
        have res: "checkForNewSwaps e feed cache b = commitFirstMentions cache fm ?b2"
          using Some False g Inr d by (simp add: checkForNewSwaps_def)
        have c: "calls (checkForNewSwaps e feed cache b)
                 = calls b @ det @ ev @ map (commitCall cache) fm"
          by (simp add: res commitFirstMentions_calls ev det)
        have k: "known (db ?b0) = known (db b)" using ut by (simp add: known_def)
        have dist: "distinct fm" using dr by simp
        have sub: "set fm \<subseteq> swapMints (feedSwaps feed) - known (db b)"
          using dr k Some by (auto simp: feedSwaps_def)
        have mid: "unique_tokens (db ?b2) = unique_tokens (db b)"
          using ut2 dr ut by simp
        have fin: "db (checkForNewSwaps e feed cache b) = foldl (applyCommit cache) (db ?b2) fm"
          by (simp add: res commitFirstMentions_db)
        have ext: "\<exists>new. unique_tokens (db (checkForNewSwaps e feed cache b))
                          = unique_tokens (db b) @ new \<and>
                        set new \<subseteq> commitRow cache ` set fm"
          using commits_extend[of cache "db ?b2" fm] by (simp add: fin mid)
        have full: "outages (db b) = [] \<longrightarrow>
             set fm = swapMints (feedSwaps feed) - known (db b) \<and>
             unique_tokens (db (checkForNewSwaps e feed cache b))
               = unique_tokens (db b) @ map (commitRow cache) fm \<and>
             known (db (checkForNewSwaps e feed cache b))
               = known (db b) \<union> swapMints (feedSwaps feed)"
        proof
          assume o: "outages (db b) = []"
          then have "d' = db b" using g getAllUsers_reads(3)[of "db b"] by simp
          with o have o0: "outages (db ?b0) = []" by simp
          with dr k Some have fmeq: "set fm = swapMints (feedSwaps feed) - known (db b)"
            and o1: "outages (db b1) = []"
            by (auto simp: feedSwaps_def)
          have db2: "db ?b2 = db b1" using o1 by (rule processUsers_no_outage)
          have o2: "outages (db ?b2) = []" by (simp add: db2 o1)
          have k2: "known (db ?b2) = known (db b)" using mid by (simp add: known_def)
          have disj: "set fm \<inter> known (db ?b2) = {}" using sub by (auto simp: k2)
          have u: "unique_tokens (db (checkForNewSwaps e feed cache b))
               = unique_tokens (db b) @ map (commitRow cache) fm"
            using commits_no_outage[OF o2 dist disj, of cache] by (simp add: fin mid)
          have "known (db (checkForNewSwaps e feed cache b)) = known (db b) \<union> set fm"
            using u by (rule known_append)
          with fmeq have "known (db (checkForNewSwaps e feed cache b))
               = known (db b) \<union> swapMints (feedSwaps feed)" by auto
          with fmeq u show "set fm = swapMints (feedSwaps feed) - known (db b) \<and>
             unique_tokens (db (checkForNewSwaps e feed cache b))
               = unique_tokens (db b) @ map (commitRow cache) fm \<and>
             known (db (checkForNewSwaps e feed cache b))
               = known (db b) \<union> swapMints (feedSwaps feed)" by blast
        qed
        have "?P (checkForNewSwaps e feed cache b) det ev fm (db ?b2)"
          using c det(2) ev(2,3) dist sub mid fin ext full us by blast
        then show ?thesis by blast
      qed
    qed
  qed
qed

section \<open>The claims\<close>

subsection \<open>C1: per-user delivery deduplication\<close>

text \<open>
  Claim C1 as stated fails: the history is bounded, so a swap id that was delivered can be
  evicted and then matches again.  User 1 gets the swap \<open>ce_swap 0\<close>, then a hundred other
  swaps (the 101st recorded id evicts the oldest 50, among them that of \<open>ce_swap 0\<close>), and
  then \<open>ce_swap 0\<close> once more: both calls on \<open>ce_swap 0\<close> return \<open>matches = true\<close>.
\<close>

theorem evicted_swap_matches_again:
  "fst (shouldNotify env0 initial_state 1 (ce_swap 0) enabled_rows None None)
     = Inr \<lparr>matches = True, isFirstMention = False\<rparr> \<and>
   fst (shouldNotify env0
          (foldl (deliver env0 1 enabled_rows) initial_state (map ce_swap [0..<101]))
          1 (ce_swap 0) enabled_rows None None)
     = Inr \<lparr>matches = True, isFirstMention = False\<rparr>"
proof
  have "ce_sig 0 \<notin> set (processedSwaps initial_state 1)"
    by (simp add: processedSwaps_def initial_state_def)
  then show "fst (shouldNotify env0 initial_state 1 (ce_swap 0) enabled_rows None None)
     = Inr \<lparr>matches = True, isFirstMention = False\<rparr>"
    by (simp add: ce_step)
next
  have "ce_sig 0 \<notin> set (processedSwaps
          (foldl (deliver env0 1 enabled_rows) initial_state (map ce_swap [0..<101])) 1)"
    by (simp only: ce_after_101 ce_sig_fresh) simp
  then show "fst (shouldNotify env0
          (foldl (deliver env0 1 enabled_rows) initial_state (map ce_swap [0..<101]))
          1 (ce_swap 0) enabled_rows None None)
     = Inr \<lparr>matches = True, isFirstMention = False\<rparr>"
    by (simp add: ce_step)
qed

text \<open>
  Claim C1, amended.  (1) A call on a swap id that is in the user's recorded set returns
  \<open>matches = false\<close> and leaves the history unchanged.  (2) A call that returns
  \<open>matches = true\<close> records the swap id for that user, so every call with the same pair made
  in the resulting state returns \<open>matches = false\<close>; and when the user's set held 100 ids
  before that match, the oldest 50 are evicted: the new set is the old one with the new id
  appended, without its first 50 ids.  (3) An id recorded in a set of fewer than 100 ids
  stays recorded after any call.  (4) If every user's set holds at most 100 ids before a
  call, so it does after it.  (5) Sets without repetition stay so.
\<close>

theorem delivery_history_dedup:
  "(swapId swap \<in> set (processedSwaps st uid) \<longrightarrow>
      matchesFilters e st swap f fm uid c
        = (Inr \<lparr>matches = False, isFirstMention = False\<rparr>, st))
   \<and> (matchesFilters e2 st2 swap2 f2 fm2 uid2 c2 = (Inr r2, st2') \<and> matches r2 \<longrightarrow>
        swapId swap2 \<in> set (processedSwaps st2' uid2) \<and>
        (\<forall>e' swap' f' fm' c'. swapId swap' = swapId swap2 \<longrightarrow>
            matchesFilters e' st2' swap' f' fm' uid2 c'
              = (Inr \<lparr>matches = False, isFirstMention = False\<rparr>, st2')) \<and>
        (distinct (processedSwaps st2 uid2) \<and> length (processedSwaps st2 uid2) = 100 \<longrightarrow>
           processedSwaps st2' uid2 = drop 50 (processedSwaps st2 uid2 @ [swapId swap2])))
   \<and> (\<forall>u x. x \<in> set (processedSwaps st3 u) \<and> length (processedSwaps st3 u) < 100 \<longrightarrow>
          x \<in> set (processedSwaps (snd (matchesFilters e3 st3 swap3 f3 fm3 uid3 c3)) u))
   \<and> ((\<forall>u. length (processedSwaps st3 u) \<le> 100) \<longrightarrow>
        (\<forall>u. length (processedSwaps (snd (matchesFilters e3 st3 swap3 f3 fm3 uid3 c3)) u) \<le> 100))
   \<and> ((\<forall>u. distinct (processedSwaps st3 u)) \<longrightarrow>
        (\<forall>u. distinct (processedSwaps (snd (matchesFilters e3 st3 swap3 f3 fm3 uid3 c3)) u)))"
proof (intro conjI impI allI)
  assume "swapId swap \<in> set (processedSwaps st uid)"
  then show "matchesFilters e st swap f fm uid c
        = (Inr \<lparr>matches = False, isFirstMention = False\<rparr>, st)"
    using mf_duplicate by (simp add: no_match_def)
next
  assume a: "matchesFilters e2 st2 swap2 f2 fm2 uid2 c2 = (Inr r2, st2') \<and> matches r2"
  then have st': "swapId swap2 \<notin> set (processedSwaps st2 uid2)"
    "st2' = st2(uid2 \<mapsto> recordSwap (swapId swap2) (processedSwaps st2 uid2))"
    using mf_match_state by blast+
  then have ps: "processedSwaps st2' uid2 = recordSwap (swapId swap2) (processedSwaps st2 uid2)"
    by (simp add: processedSwaps_def)
  show rec: "swapId swap2 \<in> set (processedSwaps st2' uid2)"
    using st'(1) by (simp add: ps recordSwap_member)
  {
    fix e' :: env and swap' f' fm' c'
    assume "swapId swap' = swapId swap2"
    with rec have "swapId swap' \<in> set (processedSwaps st2' uid2)" by simp
    then show "matchesFilters e' st2' swap' f' fm' uid2 c'
              = (Inr \<lparr>matches = False, isFirstMention = False\<rparr>, st2')"
      using mf_duplicate by (simp add: no_match_def)
  }
  {
    assume "distinct (processedSwaps st2 uid2) \<and> length (processedSwaps st2 uid2) = 100"
    then show "processedSwaps st2' uid2 = drop 50 (processedSwaps st2 uid2 @ [swapId swap2])"
      using st'(1) by (simp add: ps recordSwap_evicts)
  }
next
  fix u x
  assume "x \<in> set (processedSwaps st3 u) \<and> length (processedSwaps st3 u) < 100"
  then show "x \<in> set (processedSwaps (snd (matchesFilters e3 st3 swap3 f3 fm3 uid3 c3)) u)"
    using mf_processed[of e3 st3 swap3 f3 fm3 uid3 c3 u] recordSwap_keeps by auto
next
  fix u
  assume "\<forall>u. length (processedSwaps st3 u) \<le> 100"
  then show "length (processedSwaps (snd (matchesFilters e3 st3 swap3 f3 fm3 uid3 c3)) u) \<le> 100"
    using mf_processed[of e3 st3 swap3 f3 fm3 uid3 c3 u] length_recordSwap by auto
next
  fix u
  assume "\<forall>u. distinct (processedSwaps st3 u)"
  then show "distinct (processedSwaps (snd (matchesFilters e3 st3 swap3 f3 fm3 uid3 c3)) u)"
    using mf_processed[of e3 st3 swap3 f3 fm3 uid3 c3 u] distinct_recordSwap by auto
qed

theorem delivery_history_dedup_witness:
  "swapId (ce_swap 7) \<in> set (processedSwaps st100 1) \<and>
   matchesFilters env0 st100 (ce_swap 7) enabled_filters None 1 None
     = (Inr \<lparr>matches = False, isFirstMention = False\<rparr>, st100) \<and>
   fst (matchesFilters env0 st100 (ce_swap 100) enabled_filters None 1 None)
     = Inr \<lparr>matches = True, isFirstMention = False\<rparr> \<and>
   distinct (processedSwaps st100 1) \<and> length (processedSwaps st100 1) = 100 \<and>
   processedSwaps (snd (matchesFilters env0 st100 (ce_swap 100) enabled_filters None 1 None)) 1
     = drop 50 (processedSwaps st100 1 @ [swapId (ce_swap 100)]) \<and>
   (\<forall>u. length (processedSwaps initial_state u) \<le> 100) \<and>
   (\<forall>u. length (processedSwaps
           (snd (matchesFilters env0 initial_state (ce_swap 0) enabled_filters None 1 None)) u)
         \<le> 100)"
proof -
  have ps: "processedSwaps st100 1 = map ce_sig [0..<100]"
    unfolding st100_def by (rule ce_fold) simp
  have dup: "swapId (ce_swap 7) \<in> set (processedSwaps st100 1)"
    by (simp only: ps ce_swap_id ce_sig_fresh) simp
  have fresh: "ce_sig 100 \<notin> set (processedSwaps st100 1)"
    by (simp only: ps ce_sig_fresh) simp
  have f: "fst (matchesFilters env0 st100 (ce_swap 100) enabled_filters None 1 None)
        = Inr \<lparr>matches = True, isFirstMention = False\<rparr>"
    using ce_step[OF fresh] by (simp add: shouldNotify_def enabled_rows_filters)
  then have m: "matchesFilters env0 st100 (ce_swap 100) enabled_filters None 1 None
        = (Inr \<lparr>matches = True, isFirstMention = False\<rparr>,
           snd (matchesFilters env0 st100 (ce_swap 100) enabled_filters None 1 None)) \<and>
        matches \<lparr>matches = True, isFirstMention = False\<rparr>"
    by (simp add: prod_eq_iff)
  have d: "distinct (processedSwaps st100 1)" "length (processedSwaps st100 1) = 100"
    by (simp_all add: ps distinct_map inj_on_def ce_sig_inj)
  have b: "\<forall>u. length (processedSwaps initial_state u) \<le> 100"
    by (simp add: processedSwaps_def initial_state_def)
  note inst = delivery_history_dedup[of "ce_swap 7" st100 1 env0 enabled_filters None None
      env0 st100 "ce_swap 100" enabled_filters None 1 None
      "\<lparr>matches = True, isFirstMention = False\<rparr>"
      "snd (matchesFilters env0 st100 (ce_swap 100) enabled_filters None 1 None)"
      initial_state env0 "ce_swap 0" enabled_filters None 1 None]
  from inst dup f m d b show ?thesis by blast
qed

subsection \<open>C2: notifications disabled\<close>

text \<open>
  Claim C2.  When the profile has \<open>notifications_enabled = false\<close>, \<open>matchesFilters\<close>
  returns \<open>matches = false\<close> and \<open>isFirstMention = false\<close> for every swap and leaves the
  delivery history as it was; so does \<open>shouldNotify\<close> when the processed rows of the user
  have notifications off.
\<close>

theorem notifications_disabled_no_match:
  "(\<not> notifications_enabled f \<longrightarrow>
      matchesFilters e st swap f fm uid c = (Inr \<lparr>matches = False, isFirstMention = False\<rparr>, st))
   \<and> (\<not> notifications_enabled (processFilters e rows) \<longrightarrow>
      shouldNotify e st uid swap rows fm c = (Inr \<lparr>matches = False, isFirstMention = False\<rparr>, st))"
  by (simp add: shouldNotify_def matchesFilters_def no_match_def)

theorem notifications_disabled_no_match_witness:
  "\<not> notifications_enabled default_filters \<and>
   \<not> notifications_enabled (processFilters env0 Null) \<and>
   matchesFilters env0 initial_state sol_to_usdc_swap default_filters (Some [SOL_MINT]) 1 None
     = (Inr \<lparr>matches = False, isFirstMention = False\<rparr>, initial_state) \<and>
   shouldNotify env0 initial_state 1 sol_to_usdc_swap Null (Some [SOL_MINT]) None
     = (Inr \<lparr>matches = False, isFirstMention = False\<rparr>, initial_state)"
proof -
  have a: "\<not> notifications_enabled default_filters" by (simp add: default_filters_def)
  have b: "\<not> notifications_enabled (processFilters env0 Null)"
    by (simp add: processFilters_def default_filters_def)
  from a b notifications_disabled_no_match[of default_filters env0 initial_state sol_to_usdc_swap
      "Some [SOL_MINT]" 1 None Null]
  show ?thesis by blast
qed

subsection \<open>C3: native asset to stablecoin conversions\<close>

text \<open>
  Claim C3 says that a swap between SOL and a recognised stablecoin is always rejected.
  The code evaluates the guard on the promises returned by \<open>getTokenSymbol\<close>, so the guard
  never holds: for a user with notifications on and no other filter, selling 2 SOL for 440
  USDC returns \<open>matches = true\<close>.
\<close>

theorem sol_to_usdc_conversion_matches:
  "fst (shouldNotify env0 initial_state 1 sol_to_usdc_swap enabled_rows None None)
     = Inr \<lparr>matches = True, isFirstMention = False\<rparr>"
  by code_simp

subsection \<open>C4: token-direction check\<close>

text \<open>
  Claim C4 says that the relevant token (output for a buy, input for a sell) is checked
  against the whitelist in TOKEN_FILTER mode and against the blacklist in the other modes.
  Both checks call \<open>toLowerCase\<close> on the promise that \<open>getTokenSymbol\<close> returns without
  \<open>await\<close>, so with a non-empty list the call raises instead of deciding.  A user with
  whitelist \<open>["BONK"]\<close> who is shown a swap buying BONK, whose relevant token is on the
  list, gets a \<open>TypeError\<close>; so does a user with blacklist \<open>["USDC"]\<close> for the same swap,
  whose relevant token is not on the list and which matches when the user has no list; and
  so does the example of the claim, whitelist \<open>["SOL"]\<close> and a swap buying SOL with 100
  USDC.
\<close>

theorem token_list_checks_raise:
  "relevantToken sol_to_bonk_swap = Some (mk_token BONK_MINT ''BONK'' 1000000) \<and>
   tokenListed env0 (mk_token BONK_MINT ''BONK'' 1000000) [''BONK''] \<and>
   fst (shouldNotify env0 initial_state 1 sol_to_bonk_swap whitelist_bonk_rows None None)
     = Inl TypeError \<and>
   \<not> tokenListed env0 (mk_token BONK_MINT ''BONK'' 1000000) [''USDC''] \<and>
   fst (shouldNotify env0 initial_state 1 sol_to_bonk_swap blacklist_usdc_rows None None)
     = Inl TypeError \<and>
   fst (shouldNotify env0 initial_state 1 sol_to_bonk_swap enabled_rows None None)
     = Inr \<lparr>matches = True, isFirstMention = False\<rparr> \<and>
   fst (shouldNotify env0 initial_state 1 usdc_to_sol_swap whitelist_sol_rows None None)
     = Inl TypeError"
  by code_simp

subsection \<open>C5: market-cap filter\<close>



subsection \<open>C6: USD valuation\<close>

text \<open>
  Claim C6.  \<open>calculateSwapValueUSD\<close> computes the valuation as the specification words
  it: input side first, then output side; a stablecoin's amount as it is; SOL at its
  resolved price or at 220; any other token at its resolved price when positive; 0 when
  neither side yields a value.
\<close>

theorem valuation_as_specified: "calculateSwapValueUSD e swap c = valueUSD_spec e swap c"
  by (cases "inputToken swap"; cases "outputToken swap";
      cases "meta_symbol (inputToken swap)"; cases "meta_symbol (outputToken swap)")
     (simp_all add: calculateSwapValueUSD_def valueUSD_spec_def sideValueUSD_def price_or_220_def
        stablecoins_calculateSwapValueUSD_set Let_def)

theorem valuation_as_specified_witness:
  "calculateSwapValueUSD env0 usdc_to_sol_swap None = 100 \<and>
   calculateSwapValueUSD env0 sol_to_bonk_swap None = 220 \<and>
   calculateSwapValueUSD env0 sol_to_bonk_swap (Some bonk_cache) = 220"
proof -
  have "valueUSD_spec env0 usdc_to_sol_swap None = 100"
    "valueUSD_spec env0 sol_to_bonk_swap None = 220"
    "valueUSD_spec env0 sol_to_bonk_swap (Some bonk_cache) = 220"
    by (simp_all add: valueUSD_spec_def sideValueUSD_def usdc_to_sol_swap_def sol_to_bonk_swap_def
        mk_token_def meta_symbol_def recognized_stablecoins_def lookupTokenData_def env0_def
        bonk_cache_def SOL_MINT_def BONK_MINT_def)
  then show ?thesis
    using valuation_as_specified[of env0 usdc_to_sol_swap None]
      valuation_as_specified[of env0 sol_to_bonk_swap None]
      valuation_as_specified[of env0 sol_to_bonk_swap "Some bonk_cache"]
    by simp
qed

subsection \<open>C7: buy/sell classification\<close>

text \<open>
  Claim C7 says that a swap whose output symbol is a recognised stablecoin is a sell.
  \<open>isBuyTransaction\<close> has its own list of four stablecoins, without DAI and FRAX, which the
  two other lists of the same file contain: a swap selling BONK for DAI is classified as a
  buy.
\<close>

theorem dai_output_classified_as_buy:
  "isBuyTransaction bonk_to_dai_swap \<and> ''DAI'' \<in> set stablecoins_matchesFilters
   \<and> ''DAI'' \<in> set stablecoins_calculateSwapValueUSD"
  by code_simp

subsection \<open>C8: first-mention lifecycle\<close>

text \<open>
  Claim C8.  (1) Detection only asks \<open>isTokenKnown\<close>: it makes no other call and leaves
  the table of known tokens as it was.  (2) The calls of a cycle are the detection calls,
  then the evaluation calls, then one \<open>markTokenAsFirstMentioned\<close> for each first-mention
  mint: every commit comes after every evaluation, no mint is committed twice, every
  committed mint was referred to by a swap of the feed and unknown to the store, when a
  commit is made every user of the store had been taken up before, and when no query fails
  the committed mints are exactly the unknown mints of the feed.  The table of known tokens
  is still as it was when the last evaluation call has been made, and the store at the end
  of the cycle is that store after \<open>markTokenAsFirstMentioned\<close> has been applied to it for
  each first-mention mint in turn: the old rows are kept, rows are added only for
  first-mention mints, and when no query fails one row is added for each of them, with the
  symbol found in the cache, so that the store then knows every mint of the feed.
  (3) Committing a mint the store knows leaves the table unchanged and, the query not
  failing, reports success; committing the same mint twice is the same as committing it
  once; committing a mint the store does not know adds its row.
\<close>

theorem first_mention_lifecycle:
  "(detectFirstMentions swaps (fm0, b) = (fm1, b1) \<longrightarrow>
      unique_tokens (db b1) = unique_tokens (db b) \<and>
      (\<exists>evs. calls b1 = calls b @ evs \<and> (\<forall>x \<in> set evs. isDetection x)))
   \<and> (\<exists>det ev fm dmid.
        calls (checkForNewSwaps e feed cache b2)
          = calls b2 @ det @ ev @ map (commitCall cache) fm \<and>
        (\<forall>x \<in> set det. isDetection x) \<and> (\<forall>x \<in> set ev. isEvaluation x) \<and>
        distinct fm \<and> set fm \<subseteq> swapMints (feedSwaps feed) - known (db b2) \<and>
        (fm \<noteq> [] \<longrightarrow> filter isGetUserFilters ev = map GetUserFilters (users (db b2))) \<and>
        (outages (db b2) = [] \<longrightarrow> set fm = swapMints (feedSwaps feed) - known (db b2)) \<and>
        unique_tokens dmid = unique_tokens (db b2) \<and>
        db (checkForNewSwaps e feed cache b2) = foldl (applyCommit cache) dmid fm \<and>
        (\<exists>new. unique_tokens (db (checkForNewSwaps e feed cache b2))
                  = unique_tokens (db b2) @ new \<and>
               set new \<subseteq> commitRow cache ` set fm) \<and>
        (outages (db b2) = [] \<longrightarrow>
           unique_tokens (db (checkForNewSwaps e feed cache b2))
             = unique_tokens (db b2) @ map (commitRow cache) fm \<and>
           known (db (checkForNewSwaps e feed cache b2))
             = known (db b2) \<union> swapMints (feedSwaps feed)))
   \<and> (k \<in> known d \<longrightarrow>
        unique_tokens (snd (markTokenAsFirstMentioned d k s)) = unique_tokens d \<and>
        (\<not> fst (pool_query d) \<longrightarrow> fst (markTokenAsFirstMentioned d k s)))
   \<and> (\<not> fst (pool_query d2) \<longrightarrow>
        unique_tokens
          (snd (markTokenAsFirstMentioned (snd (markTokenAsFirstMentioned d2 k2 s2)) k2 s2'))
        = unique_tokens (snd (markTokenAsFirstMentioned d2 k2 s2)))
   \<and> (\<not> fst (pool_query d3) \<and> k3 \<notin> known d3 \<longrightarrow>
        unique_tokens (snd (markTokenAsFirstMentioned d3 k3 s3)) = unique_tokens d3 @ [(k3, s3)])"
proof (intro conjI impI)
  assume "detectFirstMentions swaps (fm0, b) = (fm1, b1)"
  from detectFirstMentions_reads[OF this]
  show "unique_tokens (db b1) = unique_tokens (db b)"
    and "\<exists>evs. calls b1 = calls b @ evs \<and> (\<forall>x \<in> set evs. isDetection x)"
    by blast+
next
  show "\<exists>det ev fm dmid.
        calls (checkForNewSwaps e feed cache b2)
          = calls b2 @ det @ ev @ map (commitCall cache) fm \<and>
        (\<forall>x \<in> set det. isDetection x) \<and> (\<forall>x \<in> set ev. isEvaluation x) \<and>
        distinct fm \<and> set fm \<subseteq> swapMints (feedSwaps feed) - known (db b2) \<and>
        (fm \<noteq> [] \<longrightarrow> filter isGetUserFilters ev = map GetUserFilters (users (db b2))) \<and>
        (outages (db b2) = [] \<longrightarrow> set fm = swapMints (feedSwaps feed) - known (db b2)) \<and>
        unique_tokens dmid = unique_tokens (db b2) \<and>
        db (checkForNewSwaps e feed cache b2) = foldl (applyCommit cache) dmid fm \<and>
        (\<exists>new. unique_tokens (db (checkForNewSwaps e feed cache b2))
                  = unique_tokens (db b2) @ new \<and>
               set new \<subseteq> commitRow cache ` set fm) \<and>
        (outages (db b2) = [] \<longrightarrow>
           unique_tokens (db (checkForNewSwaps e feed cache b2))
             = unique_tokens (db b2) @ map (commitRow cache) fm \<and>
           known (db (checkForNewSwaps e feed cache b2))
             = known (db b2) \<union> swapMints (feedSwaps feed))"
    by (rule cycle_store)
next
  assume "k \<in> known d"
  then show "unique_tokens (snd (markTokenAsFirstMentioned d k s)) = unique_tokens d"
    by (rule mark_known)
next
  assume "\<not> fst (pool_query d)"
  then show "fst (markTokenAsFirstMentioned d k s)" by (rule mark_success)
next
  assume "\<not> fst (pool_query d2)"
  then have "k2 \<in> known (snd (markTokenAsFirstMentioned d2 k2 s2))" by (rule mark_records)
  then show "unique_tokens
          (snd (markTokenAsFirstMentioned (snd (markTokenAsFirstMentioned d2 k2 s2)) k2 s2'))
        = unique_tokens (snd (markTokenAsFirstMentioned d2 k2 s2))"
    by (rule mark_known)
next
  assume "\<not> fst (pool_query d3) \<and> k3 \<notin> known d3"
  then show "unique_tokens (snd (markTokenAsFirstMentioned d3 k3 s3)) = unique_tokens d3 @ [(k3, s3)]"
    by (auto simp: markTokenAsFirstMentioned_def known_def pool_query_def
        split: list.splits prod.splits)
qed

theorem first_mention_lifecycle_witness:
  "calls (checkForNewSwaps env0 (Some [sol_to_bonk_swap]) bonk_cache bot0)
     = [IsTokenKnown SOL_MINT, IsTokenKnown BONK_MINT,
        GetUserFilters 1, ShouldNotify 1 ''sig3'', Notify 1 ''sig3'',
        GetUserFilters 2, ShouldNotify 2 ''sig3'',
        MarkTokenAsFirstMentioned BONK_MINT (Some ''BONK'')] \<and>
   unique_tokens (db (checkForNewSwaps env0 (Some [sol_to_bonk_swap]) bonk_cache bot0))
     = [(SOL_MINT, Some ''SOL''), (BONK_MINT, Some ''BONK'')] \<and>
   calls (checkForNewSwaps env0 (Some [sol_to_bonk_swap]) bonk_cache
            (checkForNewSwaps env0 (Some [sol_to_bonk_swap]) bonk_cache bot0))
     = calls (checkForNewSwaps env0 (Some [sol_to_bonk_swap]) bonk_cache bot0) @
       [IsTokenKnown SOL_MINT, IsTokenKnown BONK_MINT,
        GetUserFilters 1, ShouldNotify 1 ''sig3'', GetUserFilters 2, ShouldNotify 2 ''sig3''] \<and>
   unique_tokens (db (snd (detectFirstMentions [sol_to_bonk_swap] ([], bot0))))
     = unique_tokens (db bot0) \<and>
   (\<exists>det ev fm dmid.
      calls (checkForNewSwaps env0 (Some [sol_to_bonk_swap]) bonk_cache bot0)
        = calls bot0 @ det @ ev @ map (commitCall bonk_cache) fm \<and>
      (\<forall>x \<in> set det. isDetection x) \<and> (\<forall>x \<in> set ev. isEvaluation x) \<and>
      distinct fm \<and>
      set fm = swapMints (feedSwaps (Some [sol_to_bonk_swap])) - known (db bot0) \<and>
      unique_tokens dmid = unique_tokens (db bot0) \<and>
      db (checkForNewSwaps env0 (Some [sol_to_bonk_swap]) bonk_cache bot0)
        = foldl (applyCommit bonk_cache) dmid fm \<and>
      unique_tokens (db (checkForNewSwaps env0 (Some [sol_to_bonk_swap]) bonk_cache bot0))
        = unique_tokens (db bot0) @ map (commitRow bonk_cache) fm) \<and>
   known (db (checkForNewSwaps env0 (Some [sol_to_bonk_swap]) bonk_cache bot0))
     = known (db bot0) \<union> swapMints (feedSwaps (Some [sol_to_bonk_swap])) \<and>
   SOL_MINT \<in> known db0 \<and> BONK_MINT \<notin> known db0 \<and> \<not> fst (pool_query db0) \<and>
   unique_tokens (snd (markTokenAsFirstMentioned db0 SOL_MINT None)) = unique_tokens db0 \<and>
   fst (markTokenAsFirstMentioned db0 SOL_MINT None) \<and>
   unique_tokens (snd (markTokenAsFirstMentioned db0 BONK_MINT (Some ''BONK'')))
     = unique_tokens db0 @ [(BONK_MINT, Some ''BONK'')] \<and>
   unique_tokens (snd (markTokenAsFirstMentioned
                        (snd (markTokenAsFirstMentioned db0 BONK_MINT (Some ''BONK'')))
                        BONK_MINT None))
     = unique_tokens (snd (markTokenAsFirstMentioned db0 BONK_MINT (Some ''BONK'')))"
proof -
  have c: "calls (checkForNewSwaps env0 (Some [sol_to_bonk_swap]) bonk_cache bot0)
     = [IsTokenKnown SOL_MINT, IsTokenKnown BONK_MINT,
        GetUserFilters 1, ShouldNotify 1 ''sig3'', Notify 1 ''sig3'',
        GetUserFilters 2, ShouldNotify 2 ''sig3'',
        MarkTokenAsFirstMentioned BONK_MINT (Some ''BONK'')]"
    by code_simp
  have u: "unique_tokens (db (checkForNewSwaps env0 (Some [sol_to_bonk_swap]) bonk_cache bot0))
     = [(SOL_MINT, Some ''SOL''), (BONK_MINT, Some ''BONK'')]"
    by code_simp
  have c2: "calls (checkForNewSwaps env0 (Some [sol_to_bonk_swap]) bonk_cache
            (checkForNewSwaps env0 (Some [sol_to_bonk_swap]) bonk_cache bot0))
     = calls (checkForNewSwaps env0 (Some [sol_to_bonk_swap]) bonk_cache bot0) @
       [IsTokenKnown SOL_MINT, IsTokenKnown BONK_MINT,
        GetUserFilters 1, ShouldNotify 1 ''sig3'', GetUserFilters 2, ShouldNotify 2 ''sig3'']"
    by code_simp
  have d: "detectFirstMentions [sol_to_bonk_swap] ([], bot0)
           = (fst (detectFirstMentions [sol_to_bonk_swap] ([], bot0)),
              snd (detectFirstMentions [sol_to_bonk_swap] ([], bot0)))"
    by simp
  have o: "outages (db bot0) = []" by (simp add: bot0_def db0_def)
  have k: "SOL_MINT \<in> known db0" "BONK_MINT \<notin> known db0"
    by (simp_all add: known_def db0_def SOL_MINT_def BONK_MINT_def)
  have q: "\<not> fst (pool_query db0)" by (simp add: pool_query_def db0_def)
  note inst = first_mention_lifecycle[of "[sol_to_bonk_swap]" "[]" bot0
      "fst (detectFirstMentions [sol_to_bonk_swap] ([], bot0))"
      "snd (detectFirstMentions [sol_to_bonk_swap] ([], bot0))"
      env0 "Some [sol_to_bonk_swap]" bonk_cache bot0 SOL_MINT db0 None db0 BONK_MINT
      "Some ''BONK''" None db0 BONK_MINT "Some ''BONK''"]
  from inst d o have ex: "\<exists>det ev fm dmid.
      calls (checkForNewSwaps env0 (Some [sol_to_bonk_swap]) bonk_cache bot0)
        = calls bot0 @ det @ ev @ map (commitCall bonk_cache) fm \<and>
      (\<forall>x \<in> set det. isDetection x) \<and> (\<forall>x \<in> set ev. isEvaluation x) \<and>
      distinct fm \<and>
      set fm = swapMints (feedSwaps (Some [sol_to_bonk_swap])) - known (db bot0) \<and>
      unique_tokens dmid = unique_tokens (db bot0) \<and>
      db (checkForNewSwaps env0 (Some [sol_to_bonk_swap]) bonk_cache bot0)
        = foldl (applyCommit bonk_cache) dmid fm \<and>
      unique_tokens (db (checkForNewSwaps env0 (Some [sol_to_bonk_swap]) bonk_cache bot0))
        = unique_tokens (db bot0) @ map (commitRow bonk_cache) fm"
    by blast
  from inst o have kn: "known (db (checkForNewSwaps env0 (Some [sol_to_bonk_swap]) bonk_cache bot0))
     = known (db bot0) \<union> swapMints (feedSwaps (Some [sol_to_bonk_swap]))"
    by blast
  from inst c u c2 d k q ex kn show ?thesis by blast
qed

subsection \<open>C9: defaults of processFilters\<close>

text \<open>
  Claim C9.  For \<open>null\<close>, \<open>undefined\<close> or a value that is not an array,
  \<open>processFilters\<close> returns the default profile; and for an array of rows, every field whose
  filter type occurs in no row has its default value.
\<close>

theorem processFilters_defaults:
  "(dbFilters = Null \<or> dbFilters = Undefined \<or> dbFilters = NotArray \<longrightarrow>
      processFilters e dbFilters =
        \<lparr>tokens = [], blacklist = [], whale_blacklist = [], min_purchase = None,
         max_market_cap = None, monitor_all = True, notifications_enabled = False,
         first_mention_only = False\<rparr>)
   \<and> (''token_whitelist'' \<notin> filter_type ` set rows \<longrightarrow> tokens (processFilters e (Rows rows)) = [])
   \<and> (''token_blacklist'' \<notin> filter_type ` set rows \<longrightarrow> blacklist (processFilters e (Rows rows)) = [])
   \<and> (''whale_blacklist'' \<notin> filter_type ` set rows \<longrightarrow>
        whale_blacklist (processFilters e (Rows rows)) = [])
   \<and> (''min_purchase'' \<notin> filter_type ` set rows \<longrightarrow>
        min_purchase (processFilters e (Rows rows)) = None)
   \<and> (''max_market_cap'' \<notin> filter_type ` set rows \<longrightarrow>
        max_market_cap (processFilters e (Rows rows)) = None)
   \<and> (''monitor_all'' \<notin> filter_type ` set rows \<longrightarrow> monitor_all (processFilters e (Rows rows)))
   \<and> (''notifications_enabled'' \<notin> filter_type ` set rows \<longrightarrow>
        \<not> notifications_enabled (processFilters e (Rows rows)))
   \<and> (''first_mention_only'' \<notin> filter_type ` set rows \<longrightarrow>
        \<not> first_mention_only (processFilters e (Rows rows)))"
proof (intro conjI impI)
  assume "dbFilters = Null \<or> dbFilters = Undefined \<or> dbFilters = NotArray"
  then show "processFilters e dbFilters =
        \<lparr>tokens = [], blacklist = [], whale_blacklist = [], min_purchase = None,
         max_market_cap = None, monitor_all = True, notifications_enabled = False,
         first_mention_only = False\<rparr>"
    by (auto simp: processFilters_def default_filters_def)
qed (simp_all add: processFilters_def foldl_tokens foldl_blacklist foldl_whale_blacklist
      foldl_min_purchase foldl_max_market_cap foldl_monitor_all foldl_notifications_enabled
      foldl_first_mention_only, simp_all add: default_filters_def)

theorem processFilters_defaults_witness:
  "processFilters env0 Undefined =
        \<lparr>tokens = [], blacklist = [], whale_blacklist = [], min_purchase = None,
         max_market_cap = None, monitor_all = True, notifications_enabled = False,
         first_mention_only = False\<rparr>
   \<and> processFilters env0 (Rows unknown_kind_rows) =
        \<lparr>tokens = [], blacklist = [], whale_blacklist = [], min_purchase = None,
         max_market_cap = None, monitor_all = True, notifications_enabled = False,
         first_mention_only = False\<rparr>"
proof -
  have none: "''token_whitelist'' \<notin> filter_type ` set unknown_kind_rows"
    "''token_blacklist'' \<notin> filter_type ` set unknown_kind_rows"
    "''whale_blacklist'' \<notin> filter_type ` set unknown_kind_rows"
    "''min_purchase'' \<notin> filter_type ` set unknown_kind_rows"
    "''max_market_cap'' \<notin> filter_type ` set unknown_kind_rows"
    "''monitor_all'' \<notin> filter_type ` set unknown_kind_rows"
    "''notifications_enabled'' \<notin> filter_type ` set unknown_kind_rows"
    "''first_mention_only'' \<notin> filter_type ` set unknown_kind_rows"
    by (simp_all add: unknown_kind_rows_def)
  from processFilters_defaults[of Undefined env0 unknown_kind_rows] none
  show ?thesis by (cases "processFilters env0 (Rows unknown_kind_rows)") simp
qed

subsection \<open>C10: the first-mention flag of a rejected swap\<close>

text \<open>
  Claim C10.  (1) When a swap is rejected before the first-mention computation
  (notifications off, swap id already delivered, conversion guard, spam prefix or
  blocklisted mint, no relevant token) or by the hardcoded whale blocklist, the result is
  \<open>matches = false\<close> with \<open>isFirstMention = false\<close>, whatever the first-mention set holds.
  (2) A result with \<open>matches = false\<close> that none of these rejections produced carries the
  computed flag; it comes from the first-mention-only gate (the flag is then false) or
  from a failing user-level check: token list, whale blacklist, minimum purchase, market
  cap.
\<close>

theorem first_mention_flag_on_rejection:
  "(fst (matchesFilters e st swap f fm uid c) = Inr r \<and> rejectedEarly e st swap f uid \<longrightarrow>
      r = \<lparr>matches = False, isFirstMention = False\<rparr>)
   \<and> (fst (matchesFilters e2 st2 swap2 f2 fm2 uid2 c2) = Inr r2 \<and> \<not> matches r2 \<and>
       \<not> rejectedEarly e2 st2 swap2 f2 uid2 \<longrightarrow>
        isFirstMention r2 = firstMentionFlag fm2 swap2 \<and>
        ((first_mention_only f2 \<and> \<not> firstMentionFlag fm2 swap2) \<or>
         (\<exists>rt. relevantToken swap2 = Some rt \<and> userLevelRejection e2 swap2 f2 c2 rt)))"
proof (intro conjI impI)
  assume "fst (matchesFilters e st swap f fm uid c) = Inr r \<and> rejectedEarly e st swap f uid"
  then show "r = \<lparr>matches = False, isFirstMention = False\<rparr>"
    using mf_rejectedEarly[of e st swap f fm uid c r] by (simp add: no_match_def)
next
  assume a: "fst (matchesFilters e2 st2 swap2 f2 fm2 uid2 c2) = Inr r2 \<and> \<not> matches r2 \<and>
       \<not> rejectedEarly e2 st2 swap2 f2 uid2"
  then obtain rt where rt: "relevantToken swap2 = Some rt"
    and r: "if first_mention_only f2 \<and> \<not> firstMentionFlag fm2 swap2 then r2 = no_match
            else isFirstMention r2 = firstMentionFlag fm2 swap2 \<and>
                 matches r2 = (\<not> userLevelRejection e2 swap2 f2 c2 rt)"
    using mf_not_early by blast
  show "isFirstMention r2 = firstMentionFlag fm2 swap2"
    using r by (auto simp: no_match_def split: if_splits)
  show "(first_mention_only f2 \<and> \<not> firstMentionFlag fm2 swap2) \<or>
         (\<exists>rt. relevantToken swap2 = Some rt \<and> userLevelRejection e2 swap2 f2 c2 rt)"
    using r rt a by (auto split: if_splits)
qed

theorem first_mention_flag_on_rejection_witness:
  "firstMentionFlag (Some [''XsSpamTokenMint'']) spam_swap \<and>
   rejectedEarly env0 initial_state spam_swap enabled_filters 1 \<and>
   fst (matchesFilters env0 initial_state spam_swap enabled_filters (Some [''XsSpamTokenMint'']) 1
         None) = Inr \<lparr>matches = False, isFirstMention = False\<rparr> \<and>
   \<not> rejectedEarly env0 initial_state sol_to_bonk_swap min_purchase_filters 1 \<and>
   fst (matchesFilters env0 initial_state sol_to_bonk_swap min_purchase_filters (Some [BONK_MINT])
         1 None) = Inr \<lparr>matches = False, isFirstMention = True\<rparr> \<and>
   firstMentionFlag (Some [BONK_MINT]) sol_to_bonk_swap \<and>
   (\<exists>rt. relevantToken sol_to_bonk_swap = Some rt \<and>
         userLevelRejection env0 sol_to_bonk_swap min_purchase_filters None rt)"
proof -
  have fl: "firstMentionFlag (Some [''XsSpamTokenMint'']) spam_swap" by code_simp
  have e1: "rejectedEarly env0 initial_state spam_swap enabled_filters 1" by code_simp
  have r1: "fst (matchesFilters env0 initial_state spam_swap enabled_filters
                  (Some [''XsSpamTokenMint'']) 1 None)
            = Inr \<lparr>matches = False, isFirstMention = False\<rparr>"
    by code_simp
  have e2: "\<not> rejectedEarly env0 initial_state sol_to_bonk_swap min_purchase_filters 1"
    by code_simp
  have r2: "fst (matchesFilters env0 initial_state sol_to_bonk_swap min_purchase_filters
                  (Some [BONK_MINT]) 1 None)
            = Inr \<lparr>matches = False, isFirstMention = True\<rparr>"
    by code_simp
  have sel: "\<not> matches \<lparr>matches = False, isFirstMention = True\<rparr>"
    "isFirstMention \<lparr>matches = False, isFirstMention = True\<rparr>"
    by simp_all
  note inst = first_mention_flag_on_rejection[of env0 initial_state spam_swap enabled_filters
      "Some [''XsSpamTokenMint'']" 1 None "\<lparr>matches = False, isFirstMention = False\<rparr>"
      env0 initial_state sol_to_bonk_swap min_purchase_filters "Some [BONK_MINT]" 1 None
      "\<lparr>matches = False, isFirstMention = True\<rparr>"]
  from inst fl e1 r1 e2 r2 sel show ?thesis by blast
qed

end
